theory Spec2Isabelle
  imports Main
begin

section \<open>Python values\<close>

text \<open>
  A Python \<open>str\<close> is a sequence of Unicode code points; a code point is a natural
  number. ASCII literals of the source are written with \<open>u\<close>.
\<close>

type_synonym ustr = "nat list"

definition u :: "string \<Rightarrow> ustr" where
  "u s = map of_char s"

text \<open>
  What the result expressions of the three backends evaluate to: text, or \<open>None\<close>
  (\<open>message.content\<close> is optional; a JSON \<open>"response"\<close> that is not text fails the
  same \<open>isinstance\<close> assertion as \<open>None\<close> and is represented by it).
\<close>

datatype pyval = PyNone | PyStr ustr

text \<open>Every assertion of the two tests, with the backend it names.\<close>

datatype failure =
    Response_must_be_a_string ustr
  | Response_must_not_be_empty ustr
  | Response_must_contain_letters ustr
  | Response_must_be_in_Russian ustr
  | Final_response_must_be_a_string ustr
  | Final_response_must_not_be_empty ustr
  | Final_response_must_be_in_Russian ustr
  | Final_response_is_too_short ustr
  | Final_responses_must_be_unique

datatype py_error =
  AssertionError failure | TypeError | KeyError | IntegrityError | UnicodeEncodeError

fun message :: "failure \<Rightarrow> ustr" where
  "message (Response_must_be_a_string m) = u ''Response from '' @ m @ u '' must be a string''"
| "message (Response_must_not_be_empty m) = u ''Response from '' @ m @ u '' must not be empty''"
| "message (Response_must_contain_letters m) = u ''Response from '' @ m @ u '' must contain letters''"
| "message (Response_must_be_in_Russian m) = u ''Response from '' @ m @ u '' must be in Russian''"
| "message (Final_response_must_be_a_string m) =
     u ''Final response from '' @ m @ u '' must be a string''"
| "message (Final_response_must_not_be_empty m) =
     u ''Final response from '' @ m @ u '' must not be empty''"
| "message (Final_response_must_be_in_Russian m) =
     u ''Final response from '' @ m @ u '' must be in Russian''"
| "message (Final_response_is_too_short m) =
     u ''Final response from '' @ m @ u '' is too short (less than 20 words)''"
| "message Final_responses_must_be_unique = u ''Final responses from models must be unique''"

section \<open>String operations of the Python library\<close>

text \<open>
  \<open>char.isalpha()\<close>: the code point has a letter category in the Unicode database.
  Basic Latin and the code points U+0400..U+045F (all of them upper or lower case
  letters) are written out; the rest of the database is the parameter \<open>other\<close>.
\<close>

definition isalpha :: "(nat \<Rightarrow> bool) \<Rightarrow> nat \<Rightarrow> bool" where
  "isalpha other c =
     (if c < 0x80 then (0x41 \<le> c \<and> c \<le> 0x5A) \<or> (0x61 \<le> c \<and> c \<le> 0x7A)
      else if 0x400 \<le> c \<and> c \<le> 0x45F then True
      else other c)"

text \<open>The code points that \<open>str.split()\<close> without a separator treats as whitespace.\<close>

definition isspace :: "nat \<Rightarrow> bool" where
  "isspace c =
     ((0x09 \<le> c \<and> c \<le> 0x0D) \<or> (0x1C \<le> c \<and> c \<le> 0x20) \<or> c = 0x85 \<or> c = 0xA0
      \<or> c = 0x1680 \<or> (0x2000 \<le> c \<and> c \<le> 0x200A) \<or> c = 0x2028 \<or> c = 0x2029
      \<or> c = 0x202F \<or> c = 0x205F \<or> c = 0x3000)"

text \<open>\<open>s.split()\<close>: the maximal runs of non-whitespace; \<open>w\<close> is the run being read.\<close>

fun split_ws :: "ustr \<Rightarrow> ustr \<Rightarrow> ustr list" where
  "split_ws w [] = (if w = [] then [] else [w])"
| "split_ws w (c # cs) =
     (if isspace c then (if w = [] then split_ws [] cs else w # split_ws [] cs)
      else split_ws (w @ [c]) cs)"

definition split :: "ustr \<Rightarrow> ustr list" where
  "split s = split_ws [] s"

text \<open>
  \<open>re.search\<close> with a pattern that is one character class of ranges: the position of
  the first character lying in one of the ranges, \<open>None\<close> when there is none.
\<close>

definition in_class :: "(nat \<times> nat) list \<Rightarrow> nat \<Rightarrow> bool" where
  "in_class ranges c = list_ex (\<lambda>(lo, hi). lo \<le> c \<and> c \<le> hi) ranges"

fun re_search :: "(nat \<times> nat) list \<Rightarrow> ustr \<Rightarrow> nat option" where
  "re_search ranges [] = None"
| "re_search ranges (c # cs) =
     (if in_class ranges c then Some 0 else map_option Suc (re_search ranges cs))"

text \<open>The pattern of the source: the ranges U+0430..U+044F and U+0410..U+042F.\<close>

definition russian_pattern :: "(nat \<times> nat) list" where
  "russian_pattern = [(0x430, 0x44F), (0x410, 0x42F)]"

definition has_russian :: "ustr \<Rightarrow> bool" where
  "has_russian response = (re_search russian_pattern response \<noteq> None)"

section \<open>Validation of a response\<close>

text \<open>The four assertions on a response of the round-robin dialogue.\<close>

definition validate_response :: "(nat \<Rightarrow> bool) \<Rightarrow> ustr \<Rightarrow> pyval \<Rightarrow> py_error + unit" where
  "validate_response other model response =
     (case response of
        PyNone \<Rightarrow> Inl (AssertionError (Response_must_be_a_string model))
      | PyStr s \<Rightarrow>
          if \<not> length s > 0 then Inl (AssertionError (Response_must_not_be_empty model))
          else if \<not> list_ex (isalpha other) s
            then Inl (AssertionError (Response_must_contain_letters model))
          else if \<not> has_russian s then Inl (AssertionError (Response_must_be_in_Russian model))
          else Inr ())"

text \<open>The three assertions on an aspect response of the task-solving dialogue.\<close>

definition validate_aspect :: "ustr \<Rightarrow> pyval \<Rightarrow> py_error + unit" where
  "validate_aspect model response =
     (case response of
        PyNone \<Rightarrow> Inl (AssertionError (Response_must_be_a_string model))
      | PyStr s \<Rightarrow>
          if \<not> length s > 0 then Inl (AssertionError (Response_must_not_be_empty model))
          else if \<not> has_russian s then Inl (AssertionError (Response_must_be_in_Russian model))
          else Inr ())"

text \<open>The four assertions on a final response of the task-solving dialogue.\<close>

definition min_words :: nat where
  "min_words = 20"

definition validate_final :: "ustr \<Rightarrow> pyval \<Rightarrow> py_error + unit" where
  "validate_final model final_response =
     (case final_response of
        PyNone \<Rightarrow> Inl (AssertionError (Final_response_must_be_a_string model))
      | PyStr s \<Rightarrow>
          if \<not> length s > 0 then Inl (AssertionError (Final_response_must_not_be_empty model))
          else if \<not> has_russian s
            then Inl (AssertionError (Final_response_must_be_in_Russian model))
          else if \<not> length (split s) \<ge> min_words
            then Inl (AssertionError (Final_response_is_too_short model))
          else Inr ())"

section \<open>The backends\<close>

text \<open>
  A call of a backend's client either returns a value or raises an exception \<open>e\<close>;
  \<open>Raises\<close> carries \<open>str(e)\<close>. The three clients are the environment of the tests.
\<close>

datatype call_result = Returns pyval | Raises ustr

record clients =
  openai_client :: "ustr \<Rightarrow> call_result"
  ollama_post :: "ustr \<Rightarrow> call_result"
  gigachat_client :: "ustr \<Rightarrow> call_result"

text \<open>The \<open>except Exception\<close> clause: the exception becomes a text.\<close>

definition guarded :: "ustr \<Rightarrow> call_result \<Rightarrow> pyval" where
  "guarded client_type r =
     (case r of
        Returns v \<Rightarrow> v
      | Raises e \<Rightarrow> PyStr (u ''Error getting response from '' @ client_type @ u '': '' @ e))"

definition get_model_response :: "clients \<Rightarrow> ustr \<Rightarrow> ustr \<Rightarrow> pyval" where
  "get_model_response cl client_type prompt =
     (if client_type = u ''openai'' then guarded client_type (openai_client cl prompt)
      else if client_type = u ''ollama'' then guarded client_type (ollama_post cl prompt)
      else if client_type = u ''gigachat'' then guarded client_type (gigachat_client cl prompt)
      else PyNone)"

section \<open>The table of dialogues\<close>

text \<open>
  An entry of a dialogue is a dictionary; the keys \<open>model\<close>, \<open>type\<close> and \<open>aspect\<close>
  are read with \<open>get\<close>, so they may be missing.
\<close>

record entry =
  e_model :: "ustr option"
  e_type :: "ustr option"
  e_content :: pyval
  e_aspect :: "ustr option"

text \<open>A row of the table \<open>model_dialogues\<close>; the time is in seconds.\<close>

record row =
  row_id :: nat
  test_name :: ustr
  timestamp :: nat
  model_name :: ustr
  message_type :: ustr
  message_content :: ustr
  aspect :: "ustr option"
  sequence_number :: nat

text \<open>
  A text is bound to a statement as UTF-8: a text with a surrogate code point,
  U+D800..U+DFFF, cannot be encoded and the binding raises.
\<close>

definition encodable :: "ustr \<Rightarrow> bool" where
  "encodable s = list_all (\<lambda>c. \<not> (0xD800 \<le> c \<and> c \<le> 0xDFFF)) s"

definition next_id :: "row list \<Rightarrow> nat" where
  "next_id tbl = Suc (fold max (map row_id tbl) 0)"

text \<open>
  One \<open>INSERT\<close>. The parameters are bound first, the name of the test, the model, the
  type, the content and the aspect; then the statement is executed: a content that is
  \<open>None\<close> violates \<open>NOT NULL\<close>. The key of the new row is one more than the largest
  key of the table, its time is the clock's \<open>CURRENT_TIMESTAMP\<close>.
\<close>

definition insert_row :: "nat \<Rightarrow> row list \<Rightarrow> ustr \<Rightarrow> nat \<Rightarrow> entry \<Rightarrow> py_error + row list" where
  "insert_row current_timestamp tbl name seq_num e =
     (let model = (case e_model e of None \<Rightarrow> u ''system'' | Some m \<Rightarrow> m);
          type = (case e_type e of None \<Rightarrow> u ''message'' | Some t \<Rightarrow> t)
      in if \<not> (encodable name \<and> encodable model \<and> encodable type
               \<and> (case e_content e of PyNone \<Rightarrow> True | PyStr s \<Rightarrow> encodable s)
               \<and> (case e_aspect e of None \<Rightarrow> True | Some a \<Rightarrow> encodable a))
         then Inl UnicodeEncodeError
         else
           (case e_content e of
              PyNone \<Rightarrow> Inl IntegrityError
            | PyStr s \<Rightarrow>
                Inr (tbl @
                  [\<lparr>row_id = next_id tbl,
                    test_name = name,
                    timestamp = current_timestamp,
                    model_name = model,
                    message_type = type,
                    message_content = s,
                    aspect = e_aspect e,
                    sequence_number = seq_num\<rparr>])))"

text \<open>
  The loop over \<open>enumerate(dialogue_entries)\<close>; \<open>now seq_num\<close> is the time at which
  the insertion of entry \<open>seq_num\<close> is executed.
\<close>

fun insert_all :: "(nat \<Rightarrow> nat) \<Rightarrow> ustr \<Rightarrow> (nat \<times> entry) list \<Rightarrow> row list \<Rightarrow> py_error + row list" where
  "insert_all now name [] tbl = Inr tbl"
| "insert_all now name ((seq_num, e) # rest) tbl =
     (case insert_row (now seq_num) tbl name seq_num e of
        Inl err \<Rightarrow> Inl err
      | Inr tbl' \<Rightarrow> insert_all now name rest tbl')"

text \<open>
  The rows are committed after the loop: when an insertion raises, the connection is
  closed without a commit and the table stays as it was, which is the caller's
  reading of \<open>Inl\<close>.
\<close>

definition save_dialogue_to_db :: "(nat \<Rightarrow> nat) \<Rightarrow> row list \<Rightarrow> ustr \<Rightarrow> entry list \<Rightarrow> py_error + row list" where
  "save_dialogue_to_db now tbl name dialogue_entries =
     insert_all now name (enumerate 0 dialogue_entries) tbl"

text \<open>
  \<open>ORDER BY sequence_number\<close>; the order among rows with equal sequence numbers is the
  engine's choice, here the order of insertion.
\<close>

definition get_dialogue_from_db :: "row list \<Rightarrow> ustr \<Rightarrow> row list" where
  "get_dialogue_from_db tbl name =
     sort_key sequence_number (filter (\<lambda>r. test_name r = name) tbl)"

text \<open>
  The first query of \<open>view_latest_test_results\<close>:
  \<open>SELECT DISTINCT test_name, timestamp ... ORDER BY timestamp DESC LIMIT 5\<close>.
\<close>

definition latest_tests :: "row list \<Rightarrow> (ustr \<times> nat) list" where
  "latest_tests tbl =
     take 5 (sort_key (\<lambda>(n, t). - int t) (remdups (map (\<lambda>r. (test_name r, timestamp r)) tbl)))"

text \<open>What is printed: every test of the first query with its messages.\<close>

definition view_latest_test_results ::
  "row list \<Rightarrow> (ustr \<times> nat \<times> (ustr \<times> ustr \<times> ustr \<times> ustr option) list) list" where
  "view_latest_test_results tbl =
     map (\<lambda>(n, t).
            (n, t, map (\<lambda>r. (model_name r, message_type r, message_content r, aspect r))
                     (get_dialogue_from_db tbl n)))
         (latest_tests tbl)"

section \<open>The dialogue in Russian\<close>

definition nl :: ustr where
  "nl = [0x0A]"

definition ind :: "nat \<Rightarrow> string \<Rightarrow> ustr" where
  "ind n s = replicate n 0x20 @ u s"

definition topic :: ustr where
  "topic =
     nl @ ind 8 ''Let'' @ [0x27] @ u ''s discuss the importance of collaboration between different language models ''
     @ nl @ ind 8 ''for solving complex tasks. How can we best utilize the strengths of each model?''
     @ nl @ ind 8 []"

definition models :: "ustr list" where
  "models = [u ''openai'', u ''ollama'', u ''gigachat'']"

text \<open>\<open>sep.join(...)\<close>: every item has to be a text.\<close>

fun texts_of :: "pyval list \<Rightarrow> ustr list option" where
  "texts_of [] = Some []"
| "texts_of (PyNone # vs) = None"
| "texts_of (PyStr s # vs) = map_option ((#) s) (texts_of vs)"

fun join_texts :: "ustr \<Rightarrow> ustr list \<Rightarrow> ustr" where
  "join_texts sep [] = []"
| "join_texts sep [x] = x"
| "join_texts sep (x # y # ys) = x @ sep @ join_texts sep (y # ys)"

definition join :: "ustr \<Rightarrow> pyval list \<Rightarrow> py_error + ustr" where
  "join sep vs = (case texts_of vs of None \<Rightarrow> Inl TypeError | Some ts \<Rightarrow> Inr (join_texts sep ts))"

definition discussion_prompt :: "ustr \<Rightarrow> ustr" where
  "discussion_prompt context =
     nl @ ind 16 ''Context of the previous discussion:''
     @ nl @ ind 16 [] @ context
     @ nl
     @ nl @ ind 16 ''Please continue the dialogue, considering the following requirements:''
     @ nl @ ind 16 ''1. The response must be in Russian''
     @ nl @ ind 16 ''2. The response must be related to previous messages''
     @ nl @ ind 16 ''3. Provide a constructive suggestion or idea''
     @ nl @ ind 16 ''4. Response length - no more than 2-3 sentences''
     @ nl @ ind 16 []"

text \<open>The inner loop: one turn of every model, in the order of \<open>models\<close>.\<close>

fun round_turns :: "(nat \<Rightarrow> bool) \<Rightarrow> clients \<Rightarrow> ustr list \<Rightarrow> entry list \<Rightarrow> py_error + entry list" where
  "round_turns other cl [] dialogue_entries = Inr dialogue_entries"
| "round_turns other cl (model # rest) dialogue_entries =
     (case join nl (map e_content dialogue_entries) of
        Inl err \<Rightarrow> Inl err
      | Inr context \<Rightarrow>
          (let response = get_model_response cl model (discussion_prompt context)
           in case validate_response other model response of
                Inl err \<Rightarrow> Inl err
              | Inr _ \<Rightarrow>
                  round_turns other cl rest
                    (dialogue_entries @
                      [\<lparr>e_model = Some model, e_type = Some (u ''response''),
                        e_content = response, e_aspect = None\<rparr>])))"

text \<open>The outer loop \<open>for i in range(3)\<close>.\<close>

fun rounds :: "(nat \<Rightarrow> bool) \<Rightarrow> clients \<Rightarrow> nat list \<Rightarrow> entry list \<Rightarrow> py_error + entry list" where
  "rounds other cl [] dialogue_entries = Inr dialogue_entries"
| "rounds other cl (i # is) dialogue_entries =
     (case round_turns other cl models dialogue_entries of
        Inl err \<Rightarrow> Inl err
      | Inr dialogue_entries' \<Rightarrow> rounds other cl is dialogue_entries')"

text \<open>
  The test: the table after it and how it ended. \<open>stamp\<close> is the formatted time of the
  start, the suffix of the test's name.
\<close>

definition test_russian_dialogue ::
  "(nat \<Rightarrow> bool) \<Rightarrow> clients \<Rightarrow> (nat \<Rightarrow> nat) \<Rightarrow> ustr \<Rightarrow> row list \<Rightarrow> row list \<times> (py_error + unit)" where
  "test_russian_dialogue other cl now stamp tbl =
     (let name = u ''russian_dialogue_'' @ stamp;
          dialogue_entries =
            [\<lparr>e_model = Some (u ''system''), e_type = Some (u ''topic''),
              e_content = PyStr topic, e_aspect = None\<rparr>]
      in case rounds other cl [0..<3] dialogue_entries of
           Inl err \<Rightarrow> (tbl, Inl err)
         | Inr dialogue_entries' \<Rightarrow>
             (case save_dialogue_to_db now tbl name dialogue_entries' of
                Inl err \<Rightarrow> (tbl, Inl err)
              | Inr tbl' \<Rightarrow> (tbl', Inr ())))"

section \<open>The task-solving dialogue\<close>

definition task :: ustr where
  "task =
     nl @ ind 8 ''Task: Develop a concept for an educational platform for children.''
     @ nl @ ind 8 ''Each model should propose a solution for the following aspects:''
     @ nl @ ind 8 ''1. Technical aspect''
     @ nl @ ind 8 ''2. Pedagogical aspect''
     @ nl @ ind 8 ''3. User experience aspect''
     @ nl @ ind 8 []"

text \<open>The dictionary \<open>aspects\<close>, as its \<open>items()\<close> in the order of insertion.\<close>

definition aspects :: "(ustr \<times> ustr) list" where
  "aspects =
     [(u ''openai'', u ''technical aspect of the platform''),
      (u ''ollama'', u ''pedagogical aspect of the platform''),
      (u ''gigachat'', u ''user experience aspect'')]"

definition aspect_prompt :: "ustr \<Rightarrow> ustr" where
  "aspect_prompt a =
     nl @ ind 12 [] @ task
     @ nl
     @ nl @ ind 12 ''Please propose a solution for the following aspect: '' @ a
     @ nl
     @ nl @ ind 12 ''Requirements for the response:''
     @ nl @ ind 12 ''1. The response must be in Russian''
     @ nl @ ind 12 ''2. Provide a specific solution''
     @ nl @ ind 12 ''3. Explain how it will help in children'' @ [0x27] @ u ''s education''
     @ nl @ ind 12 ''4. Response length - 2-3 sentences''
     @ nl @ ind 12 []"

text \<open>
  The loop over the aspects. The response is put into the dictionary \<open>responses\<close> and
  into the entries before it is validated.
\<close>

fun aspect_turns ::
  "clients \<Rightarrow> (ustr \<times> ustr) list \<Rightarrow> (ustr \<rightharpoonup> pyval) \<Rightarrow> entry list
     \<Rightarrow> py_error + ((ustr \<rightharpoonup> pyval) \<times> entry list)" where
  "aspect_turns cl [] responses dialogue_entries = Inr (responses, dialogue_entries)"
| "aspect_turns cl ((model, a) # rest) responses dialogue_entries =
     (let response = get_model_response cl model (aspect_prompt a);
          responses' = responses(model \<mapsto> response);
          dialogue_entries' = dialogue_entries @
            [\<lparr>e_model = Some model, e_type = Some (u ''aspect_response''),
              e_content = response, e_aspect = Some a\<rparr>]
      in case validate_aspect model response of
           Inl err \<Rightarrow> Inl err
         | Inr _ \<Rightarrow> aspect_turns cl rest responses' dialogue_entries')"

text \<open>A value inside an f-string, and a subscript of the dictionary.\<close>

definition format_value :: "pyval \<Rightarrow> ustr" where
  "format_value v = (case v of PyNone \<Rightarrow> u ''None'' | PyStr s \<Rightarrow> s)"

definition subscript :: "(ustr \<rightharpoonup> pyval) \<Rightarrow> ustr \<Rightarrow> py_error + pyval" where
  "subscript d k = (case d k of None \<Rightarrow> Inl KeyError | Some v \<Rightarrow> Inr v)"

definition final_prompt :: "(ustr \<rightharpoonup> pyval) \<Rightarrow> py_error + ustr" where
  "final_prompt responses =
     (case subscript responses (u ''openai'') of
        Inl err \<Rightarrow> Inl err
      | Inr technical \<Rightarrow>
     (case subscript responses (u ''ollama'') of
        Inl err \<Rightarrow> Inl err
      | Inr pedagogical \<Rightarrow>
     (case subscript responses (u ''gigachat'') of
        Inl err \<Rightarrow> Inl err
      | Inr ux \<Rightarrow>
          Inr (nl @ ind 8 ''Analyze the proposed solutions and suggest how they can be combined:''
               @ nl @ ind 8 ''Technical solution: '' @ format_value technical
               @ nl @ ind 8 ''Pedagogical solution: '' @ format_value pedagogical
               @ nl @ ind 8 ''UX solution: '' @ format_value ux
               @ nl
               @ nl @ ind 8 ''Requirements for the response:''
               @ nl @ ind 8 ''1. The response must be in Russian''
               @ nl @ ind 8 ''2. Propose a concrete plan for combining the solutions''
               @ nl @ ind 8 ''3. Indicate the advantages of such a combination''
               @ nl @ ind 8 ''4. Response length - 3-4 sentences''
               @ nl @ ind 8 []))))"

text \<open>The loop of the final discussion: every model answers the same prompt.\<close>

fun final_turns ::
  "clients \<Rightarrow> ustr \<Rightarrow> ustr list \<Rightarrow> (ustr \<rightharpoonup> pyval) \<Rightarrow> entry list
     \<Rightarrow> py_error + ((ustr \<rightharpoonup> pyval) \<times> entry list)" where
  "final_turns cl prompt [] responses dialogue_entries = Inr (responses, dialogue_entries)"
| "final_turns cl prompt (model # rest) responses dialogue_entries =
     (let final_response = get_model_response cl model prompt;
          dialogue_entries' = dialogue_entries @
            [\<lparr>e_model = Some model, e_type = Some (u ''final_response''),
              e_content = final_response, e_aspect = None\<rparr>]
      in case validate_final model final_response of
           Inl err \<Rightarrow> Inl err
         | Inr _ \<Rightarrow>
             final_turns cl prompt rest
               (responses(model @ u ''_final'' \<mapsto> final_response)) dialogue_entries')"

text \<open>The dialogue up to the place where it is saved.\<close>

definition task_dialogue :: "clients \<Rightarrow> py_error + ((ustr \<rightharpoonup> pyval) \<times> entry list)" where
  "task_dialogue cl =
     (let dialogue_entries =
            [\<lparr>e_model = Some (u ''system''), e_type = Some (u ''task''),
              e_content = PyStr task, e_aspect = None\<rparr>]
      in case aspect_turns cl aspects Map.empty dialogue_entries of
           Inl err \<Rightarrow> Inl err
         | Inr (responses, dialogue_entries') \<Rightarrow>
             (case final_prompt responses of
                Inl err \<Rightarrow> Inl err
              | Inr prompt \<Rightarrow> final_turns cl prompt models responses dialogue_entries'))"

text \<open>The list \<open>[responses[f"{model}_final"] for model in models]\<close>.\<close>

fun final_responses :: "(ustr \<rightharpoonup> pyval) \<Rightarrow> ustr list \<Rightarrow> py_error + pyval list" where
  "final_responses responses [] = Inr []"
| "final_responses responses (model # rest) =
     (case subscript responses (model @ u ''_final'') of
        Inl err \<Rightarrow> Inl err
      | Inr v \<Rightarrow>
          (case final_responses responses rest of
             Inl err \<Rightarrow> Inl err
           | Inr vs \<Rightarrow> Inr (v # vs)))"

text \<open>The test: the dialogue, then the save, then the assertion of uniqueness.\<close>

definition test_task_solving_dialogue ::
  "clients \<Rightarrow> (nat \<Rightarrow> nat) \<Rightarrow> ustr \<Rightarrow> row list \<Rightarrow> row list \<times> (py_error + unit)" where
  "test_task_solving_dialogue cl now stamp tbl =
     (let name = u ''task_solving_'' @ stamp
      in case task_dialogue cl of
           Inl err \<Rightarrow> (tbl, Inl err)
         | Inr (responses, dialogue_entries) \<Rightarrow>
             (case save_dialogue_to_db now tbl name dialogue_entries of
                Inl err \<Rightarrow> (tbl, Inl err)
              | Inr tbl' \<Rightarrow>
                  (case final_responses responses models of
                     Inl err \<Rightarrow> (tbl', Inl err)
                   | Inr finals \<Rightarrow>
                       if card (set finals) = length models then (tbl', Inr ())
                       else (tbl', Inl (AssertionError Final_responses_must_be_unique)))))"

section \<open>Notions of the specification and sample inputs\<close>

text \<open>A Cyrillic character: a code point of the Unicode block Cyrillic, U+0400..U+04FF.\<close>

definition cyrillic_char :: "nat \<Rightarrow> bool" where
  "cyrillic_char c = (0x400 \<le> c \<and> c \<le> 0x4FF)"

text \<open>The Russian word of the two letters U+0434 U+0430.\<close>

definition da :: ustr where
  "da = [0x434, 0x430]"

text \<open>Twenty, twenty-one and twenty-two times that word, separated by spaces.\<close>

definition words20 :: ustr where
  "words20 =
     [0x434, 0x430, 0x20, 0x434, 0x430, 0x20, 0x434, 0x430, 0x20, 0x434, 0x430, 0x20,
      0x434, 0x430, 0x20, 0x434, 0x430, 0x20, 0x434, 0x430, 0x20, 0x434, 0x430, 0x20,
      0x434, 0x430, 0x20, 0x434, 0x430, 0x20, 0x434, 0x430, 0x20, 0x434, 0x430, 0x20,
      0x434, 0x430, 0x20, 0x434, 0x430, 0x20, 0x434, 0x430, 0x20, 0x434, 0x430, 0x20,
      0x434, 0x430, 0x20, 0x434, 0x430, 0x20, 0x434, 0x430, 0x20, 0x434, 0x430]"

definition words21 :: ustr where
  "words21 = words20 @ [0x20, 0x434, 0x430]"

definition words22 :: ustr where
  "words22 = words21 @ [0x20, 0x434, 0x430]"

text \<open>A text of twenty-one words, the last of them a lone surrogate.\<close>

definition surrogate_text :: ustr where
  "surrogate_text = words20 @ [0x20, 0xD800]"

text \<open>Backends that return the same value for every prompt.\<close>

definition constant_clients :: "pyval \<Rightarrow> pyval \<Rightarrow> pyval \<Rightarrow> clients" where
  "constant_clients a b c =
     \<lparr>openai_client = (\<lambda>prompt. Returns a), ollama_post = (\<lambda>prompt. Returns b),
      gigachat_client = (\<lambda>prompt. Returns c)\<rparr>"


definition empty_ollama :: clients where
  "empty_ollama = constant_clients (PyStr da) (PyStr []) (PyStr da)"

definition same_clients :: clients where
  "same_clients = constant_clients (PyStr words20) (PyStr words20) (PyStr words20)"

definition distinct_clients :: clients where
  "distinct_clients = constant_clients (PyStr words20) (PyStr words21) (PyStr words22)"

definition surrogate_clients :: clients where
  "surrogate_clients =
     constant_clients (PyStr surrogate_text) (PyStr surrogate_text) (PyStr surrogate_text)"

text \<open>
  A response that is a text that can be encoded, and an entry that the table takes:
  its content is such a text, and its other texts can be encoded.
\<close>

definition encodable_text :: "pyval \<Rightarrow> bool" where
  "encodable_text v = (case v of PyNone \<Rightarrow> False | PyStr s \<Rightarrow> encodable s)"

definition storable :: "entry \<Rightarrow> bool" where
  "storable e =
     (encodable (case e_model e of None \<Rightarrow> u ''system'' | Some m \<Rightarrow> m)
      \<and> encodable (case e_type e of None \<Rightarrow> u ''message'' | Some t \<Rightarrow> t)
      \<and> encodable_text (e_content e)
      \<and> (case e_aspect e of None \<Rightarrow> True | Some a \<Rightarrow> encodable a))"

text \<open>An entry, the row it is stored as, and a table of two rows of one test.\<close>

definition hello :: entry where
  "hello = \<lparr>e_model = Some (u ''openai''), e_type = Some (u ''response''),
            e_content = PyStr da, e_aspect = None\<rparr>"

definition first_row :: row where
  "first_row = \<lparr>row_id = 1, test_name = u ''run'', timestamp = 0, model_name = u ''openai'',
                message_type = u ''response'', message_content = da, aspect = None,
                sequence_number = 0\<rparr>"

definition two_rows :: "row list" where
  "two_rows =
     [\<lparr>row_id = 1, test_name = u ''run'', timestamp = 1, model_name = u ''openai'',
       message_type = u ''response'', message_content = da, aspect = None,
       sequence_number = 0\<rparr>,
      \<lparr>row_id = 2, test_name = u ''run'', timestamp = 2, model_name = u ''openai'',
       message_type = u ''response'', message_content = da, aspect = None,
       sequence_number = 1\<rparr>]"



section \<open>Properties\<close>

subsection \<open>The validation rules\<close>

lemma in_class_russian: "in_class russian_pattern c \<longleftrightarrow> 0x410 \<le> c \<and> c \<le> 0x44F"
  by (auto simp: in_class_def russian_pattern_def)

lemma re_search_None: "re_search ranges s = None \<longleftrightarrow> (\<forall>c\<in>set s. \<not> in_class ranges c)"
  by (induction s) auto

lemma has_russian_iff: "has_russian s \<longleftrightarrow> (\<exists>c\<in>set s. 0x410 \<le> c \<and> c \<le> 0x44F)"
  by (simp add: has_russian_def re_search_None in_class_russian)



text \<open>
  Claim C2, as the code has it. The target-language check fails on every text without
  a Cyrillic character, and it passes on every text with a letter of the range
  U+0410..U+044F, the letters of the pattern.
\<close>

theorem target_language_check:
  "((\<forall>c\<in>set text. \<not> cyrillic_char c) \<longrightarrow> \<not> has_russian text)
   \<and> ((\<exists>c\<in>set text. 0x410 \<le> c \<and> c \<le> 0x44F) \<longrightarrow> has_russian text)"
  by (auto simp: has_russian_iff cyrillic_char_def)

text \<open>Claim C2: the theorem at the texts \<open>yes\<close> and U+0434 U+0430.\<close>

theorem target_language_check_witness:
  "\<not> (\<exists>c\<in>set (u ''yes''). cyrillic_char c) \<and> \<not> has_russian (u ''yes'')
   \<and> (\<exists>c\<in>set da. 0x410 \<le> c \<and> c \<le> 0x44F) \<and> has_russian da"
  using target_language_check [of "u ''yes''"] target_language_check [of da]
  by (simp add: u_def da_def cyrillic_char_def)

text \<open>
  Claim C2 as stated fails: the text of the single letter U+0456 (Cyrillic small
  letter Byelorussian-Ukrainian i) is non-empty and has a Cyrillic letter, and the
  check fails on it.
\<close>

theorem cyrillic_letter_rejected:
  "cyrillic_char 0x456 \<and> isalpha (\<lambda>c. False) 0x456 \<and> [0x456] \<noteq> [] \<and> \<not> has_russian [0x456]"
  by (simp add: cyrillic_char_def isalpha_def has_russian_def russian_pattern_def in_class_def)

text \<open>
  Claim C9. For a client type that is none of \<open>openai\<close>, \<open>ollama\<close>, \<open>gigachat\<close>,
  \<open>get_model_response\<close> returns \<open>None\<close>, whatever the prompt and the clients; the
  assertion that the response is a string is then the one that fails, in each of the
  three validations.
\<close>

theorem unknown_client_type:
  assumes "client_type \<notin> {u ''openai'', u ''ollama'', u ''gigachat''}"
  shows "get_model_response cl client_type prompt = PyNone
    \<and> validate_response other client_type (get_model_response cl client_type prompt)
        = Inl (AssertionError (Response_must_be_a_string client_type))
    \<and> validate_aspect client_type (get_model_response cl client_type prompt)
        = Inl (AssertionError (Response_must_be_a_string client_type))
    \<and> validate_final client_type (get_model_response cl client_type prompt)
        = Inl (AssertionError (Final_response_must_be_a_string client_type))"
  using assms
  by (simp add: get_model_response_def validate_response_def validate_aspect_def validate_final_def)

text \<open>Claim C9: the theorem at the client type \<open>mistral\<close>.\<close>

theorem unknown_client_type_witness:
  "u ''mistral'' \<notin> {u ''openai'', u ''ollama'', u ''gigachat''}
   \<and> get_model_response (constant_clients (PyStr da) (PyStr da) (PyStr da)) (u ''mistral'') da = PyNone
   \<and> validate_response (\<lambda>c. False) (u ''mistral'')
        (get_model_response (constant_clients (PyStr da) (PyStr da) (PyStr da)) (u ''mistral'') da)
      = Inl (AssertionError (Response_must_be_a_string (u ''mistral'')))"
proof -
  have h: "u ''mistral'' \<notin> {u ''openai'', u ''ollama'', u ''gigachat''}"
    by (simp add: u_def)
  from unknown_client_type [OF h, of "constant_clients (PyStr da) (PyStr da) (PyStr da)" da "\<lambda>c. False"] h
  show ?thesis by blast
qed




subsection \<open>The table of dialogues\<close>

lemma encodable_append [simp]: "encodable (a @ b) \<longleftrightarrow> encodable a \<and> encodable b"
  by (simp add: encodable_def)

lemma encodable_u [simp]: "encodable (u s)"
proof -
  have "\<forall>c\<in>set s. (of_char c :: nat) < 0xD800"
  proof
    fix c
    have "(of_char c :: nat) < 256" by (rule nat_of_char_less_256)
    then show "(of_char c :: nat) < 0xD800" by linarith
  qed
  then show ?thesis
    by (auto simp: encodable_def u_def list_all_iff)
qed

lemma encodable_words [simp]:
  "encodable da" "encodable words20" "encodable words21" "encodable words22"
  by (simp_all add: encodable_def da_def words20_def words21_def words22_def)

lemma encodable_nl [simp]: "encodable nl"
  by (simp add: encodable_def nl_def)

lemma encodable_ind [simp]: "encodable (ind n s)"
proof -
  have "encodable (replicate n 0x20)" by (simp add: encodable_def list_all_iff)
  then show ?thesis by (simp add: ind_def)
qed

lemma encodable_Cons: "encodable (c # s) \<longleftrightarrow> \<not> (0xD800 \<le> c \<and> c \<le> 0xDFFF) \<and> encodable s"
  by (simp add: encodable_def)

lemma encodable_topic_task [simp]: "encodable topic" "encodable task"
  by (simp_all add: topic_def task_def encodable_Cons)

lemma insert_row_storable:
  assumes "encodable name" and "storable e"
  shows "\<exists>r. insert_row t tbl name k e = Inr (tbl @ [r])"
proof -
  from assms(2) obtain s where "e_content e = PyStr s"
    by (cases "e_content e") (auto simp: storable_def encodable_text_def)
  with assms show ?thesis
    by (simp add: insert_row_def storable_def encodable_text_def Let_def)
qed

lemma storable_by_maps:
  assumes "\<forall>x\<in>set (map e_model es). encodable (case x of None \<Rightarrow> u ''system'' | Some m \<Rightarrow> m)"
    and "\<forall>x\<in>set (map e_type es). encodable (case x of None \<Rightarrow> u ''message'' | Some t \<Rightarrow> t)"
    and "\<forall>x\<in>set (map e_aspect es). (case x of None \<Rightarrow> True | Some a \<Rightarrow> encodable a)"
    and "\<forall>e\<in>set es. encodable_text (e_content e)"
  shows "\<forall>e\<in>set es. storable e"
  using assms by (simp add: storable_def)

lemma insert_all_unencodable:
  assumes "\<forall>p\<in>set ies. e_content (snd p) \<noteq> PyNone"
    and "\<exists>p\<in>set ies. \<not> encodable_text (e_content (snd p))"
  shows "insert_all now name ies tbl = Inl UnicodeEncodeError"
  using assms
proof (induction ies arbitrary: tbl)
  case Nil
  then show ?case by simp
next
  case (Cons p ies)
  obtain k e where p: "p = (k, e)" by (cases p)
  from Cons.prems(1) p obtain s where s: "e_content e = PyStr s"
    by (cases "e_content e") auto
  show ?case
  proof (cases "insert_row (now k) tbl name k e")
    case (Inl x)
    with s have "x = UnicodeEncodeError"
      by (auto simp: insert_row_def Let_def split: if_splits)
    with Inl p show ?thesis by simp
  next
    case (Inr tbl1)
    with s have "encodable_text (e_content e)"
      by (auto simp: insert_row_def encodable_text_def Let_def split: if_splits)
    with Cons.prems(2) p have "\<exists>p\<in>set ies. \<not> encodable_text (e_content (snd p))"
      by auto
    moreover from Cons.prems(1) have "\<forall>p\<in>set ies. e_content (snd p) \<noteq> PyNone"
      by simp
    ultimately have "insert_all now name ies tbl1 = Inl UnicodeEncodeError"
      by (rule Cons.IH [rotated])
    with Inr p show ?thesis by simp
  qed
qed

lemma insert_row_Inl:
  "insert_row t tbl name k e = Inl err \<Longrightarrow> err = IntegrityError \<or> err = UnicodeEncodeError"
  by (auto simp: insert_row_def Let_def split: if_splits pyval.splits)

lemma insert_all_Inl:
  "insert_all now name ies tbl = Inl err \<Longrightarrow> err = IntegrityError \<or> err = UnicodeEncodeError"
proof (induction ies arbitrary: tbl)
  case Nil
  then show ?case by simp
next
  case (Cons p ies)
  obtain k e where p: "p = (k, e)" by (cases p)
  show ?case
  proof (cases "insert_row (now k) tbl name k e")
    case (Inl x)
    with Cons.prems p have "err = x" by simp
    with insert_row_Inl [OF Inl] show ?thesis by simp
  next
    case (Inr tbl1)
    with Cons.prems p Cons.IH show ?thesis by simp
  qed
qed

lemma save_Inl:
  "save_dialogue_to_db now tbl name es = Inl err \<Longrightarrow>
   err = IntegrityError \<or> err = UnicodeEncodeError"
  unfolding save_dialogue_to_db_def by (rule insert_all_Inl)

lemma insert_all_Inr:
  "insert_all now name ies tbl = Inr tbl' \<Longrightarrow>
   \<exists>new. tbl' = tbl @ new
     \<and> map sequence_number new = map fst ies
     \<and> map test_name new = map (\<lambda>p. name) ies
     \<and> map timestamp new = map (\<lambda>p. now (fst p)) ies
     \<and> map model_name new =
         map (\<lambda>p. case e_model (snd p) of None \<Rightarrow> u ''system'' | Some m \<Rightarrow> m) ies
     \<and> map message_type new =
         map (\<lambda>p. case e_type (snd p) of None \<Rightarrow> u ''message'' | Some t \<Rightarrow> t) ies
     \<and> map (\<lambda>r. PyStr (message_content r)) new = map (\<lambda>p. e_content (snd p)) ies
     \<and> map aspect new = map (\<lambda>p. e_aspect (snd p)) ies"
proof (induction ies arbitrary: tbl)
  case Nil
  then show ?case by simp
next
  case (Cons p ies)
  obtain k e where p: "p = (k, e)" by (cases p)
  from Cons.prems p obtain s where s: "e_content e = PyStr s"
    by (cases "e_content e") (auto simp: insert_row_def Let_def split: if_splits)
  define r where "r = \<lparr>row_id = next_id tbl, test_name = name, timestamp = now k,
      model_name = (case e_model e of None \<Rightarrow> u ''system'' | Some m \<Rightarrow> m),
      message_type = (case e_type e of None \<Rightarrow> u ''message'' | Some t \<Rightarrow> t),
      message_content = s, aspect = e_aspect e, sequence_number = k\<rparr>"
  from Cons.prems p s have "insert_all now name ies (tbl @ [r]) = Inr tbl'"
    by (simp add: insert_row_def r_def Let_def split: if_splits)
  from Cons.IH [OF this] obtain new where new: "tbl' = (tbl @ [r]) @ new"
     "map sequence_number new = map fst ies"
     "map test_name new = map (\<lambda>p. name) ies"
     "map timestamp new = map (\<lambda>p. now (fst p)) ies"
     "map model_name new =
         map (\<lambda>p. case e_model (snd p) of None \<Rightarrow> u ''system'' | Some m \<Rightarrow> m) ies"
     "map message_type new =
         map (\<lambda>p. case e_type (snd p) of None \<Rightarrow> u ''message'' | Some t \<Rightarrow> t) ies"
     "map (\<lambda>r. PyStr (message_content r)) new = map (\<lambda>p. e_content (snd p)) ies"
     "map aspect new = map (\<lambda>p. e_aspect (snd p)) ies"
    by blast
  show ?case
    by (rule exI [of _ "r # new"]) (simp add: new p s r_def)
qed

lemma insert_all_texts:
  assumes "encodable name"
  shows "\<forall>p\<in>set ies. storable (snd p) \<Longrightarrow> \<exists>tbl'. insert_all now name ies tbl = Inr tbl'"
proof (induction ies arbitrary: tbl)
  case Nil
  then show ?case by simp
next
  case (Cons p ies)
  obtain k e where p: "p = (k, e)" by (cases p)
  from Cons.prems p have "storable e" by simp
  from insert_row_storable [OF assms this]
  obtain r where r: "insert_row (now k) tbl name k e = Inr (tbl @ [r])" by blast
  from Cons.prems have "\<forall>p\<in>set ies. storable (snd p)" by simp
  from Cons.IH [OF this] show ?case
    by (simp add: p r)
qed

lemma map_enumerate_snd: "map (\<lambda>p. f (snd p)) (enumerate n xs) = map f xs"
  by (induction xs arbitrary: n) simp_all

lemma map_enumerate_fst: "map (\<lambda>p. f (fst p)) (enumerate n xs) = map f [n..<n + length xs]"
  by (induction xs arbitrary: n) (simp_all add: upt_rec)

lemma save_Inr:
  assumes "save_dialogue_to_db now tbl name es = Inr tbl'"
  shows "\<exists>new. tbl' = tbl @ new
     \<and> map sequence_number new = [0..<length es]
     \<and> map test_name new = replicate (length es) name
     \<and> map timestamp new = map now [0..<length es]
     \<and> map model_name new =
         map (\<lambda>e. case e_model e of None \<Rightarrow> u ''system'' | Some m \<Rightarrow> m) es
     \<and> map message_type new =
         map (\<lambda>e. case e_type e of None \<Rightarrow> u ''message'' | Some t \<Rightarrow> t) es
     \<and> map (\<lambda>r. PyStr (message_content r)) new = map e_content es
     \<and> map aspect new = map e_aspect es"
proof -
  from assms have "insert_all now name (enumerate 0 es) tbl = Inr tbl'"
    by (simp add: save_dialogue_to_db_def)
  from insert_all_Inr [OF this] obtain new where new: "tbl' = tbl @ new"
     "map sequence_number new = map fst (enumerate 0 es)"
     "map test_name new = map (\<lambda>p. name) (enumerate 0 es)"
     "map timestamp new = map (\<lambda>p. now (fst p)) (enumerate 0 es)"
     "map model_name new =
         map (\<lambda>p. case e_model (snd p) of None \<Rightarrow> u ''system'' | Some m \<Rightarrow> m) (enumerate 0 es)"
     "map message_type new =
         map (\<lambda>p. case e_type (snd p) of None \<Rightarrow> u ''message'' | Some t \<Rightarrow> t) (enumerate 0 es)"
     "map (\<lambda>r. PyStr (message_content r)) new = map (\<lambda>p. e_content (snd p)) (enumerate 0 es)"
     "map aspect new = map (\<lambda>p. e_aspect (snd p)) (enumerate 0 es)"
    by blast
  have len: "length new = length es"
    using new(2) by (metis length_map length_enumerate)
  have tn: "map test_name new = replicate (length es) name"
    using new(3) by (simp add: map_replicate_const)
  have mn: "map model_name new =
      map (\<lambda>e. case e_model e of None \<Rightarrow> u ''system'' | Some m \<Rightarrow> m) es"
    using new(5)
      map_enumerate_snd [of "\<lambda>e. case e_model e of None \<Rightarrow> u ''system'' | Some m \<Rightarrow> m" 0 es]
    by simp
  have mt: "map message_type new =
      map (\<lambda>e. case e_type e of None \<Rightarrow> u ''message'' | Some t \<Rightarrow> t) es"
    using new(6)
      map_enumerate_snd [of "\<lambda>e. case e_type e of None \<Rightarrow> u ''message'' | Some t \<Rightarrow> t" 0 es]
    by simp
  have ts: "map timestamp new = map now [0..<length es]"
    using new(4) map_enumerate_fst [of now 0 es] by simp
  have mc: "map (\<lambda>r. PyStr (message_content r)) new = map e_content es"
    using new(7) map_enumerate_snd [of e_content 0 es] by simp
  have ma: "map aspect new = map e_aspect es"
    using new(8) map_enumerate_snd [of e_aspect 0 es] by simp
  have sq: "map sequence_number new = [0..<length es]"
    using new(2) by simp
  from new(1) sq tn ts mn mt mc ma show ?thesis by blast
qed

lemma save_texts:
  assumes "encodable name" and "\<forall>e\<in>set es. storable e"
  shows "\<exists>tbl'. save_dialogue_to_db now tbl name es = Inr tbl'"
  unfolding save_dialogue_to_db_def
  by (rule insert_all_texts [OF assms(1)])
    (use assms(2) in \<open>auto simp: enumerate_eq_zip dest: set_zip_rightD\<close>)



text \<open>
  Claim C3, as the code has it. A successful \<open>save_dialogue_to_db\<close> appends one row
  per entry, in order, with the sequence numbers \<open>0, 1, ..., n - 1\<close> of
  \<open>enumerate\<close>, whatever is already stored under that name.
\<close>

theorem append_numbers_from_zero:
  assumes "save_dialogue_to_db now tbl name es = Inr tbl'"
  shows "\<exists>new. tbl' = tbl @ new \<and> map sequence_number new = [0..<length es]
           \<and> map test_name new = replicate (length es) name
           \<and> map (\<lambda>r. PyStr (message_content r)) new = map e_content es"
  using save_Inr [OF assms] by blast

lemma save_hello: "save_dialogue_to_db (\<lambda>k. 0) [] (u ''run'') [hello] = Inr [first_row]"
  by (simp add: save_dialogue_to_db_def insert_row_def hello_def first_row_def next_id_def Let_def)

lemma save_hello_again:
  "save_dialogue_to_db (\<lambda>k. 0) [first_row] (u ''run'') [hello]
     = Inr [first_row, first_row\<lparr>row_id := 2\<rparr>]"
  by (simp add: save_dialogue_to_db_def insert_row_def hello_def first_row_def next_id_def Let_def)

text \<open>Claim C3: the theorem at a second save under the name \<open>run\<close>.\<close>

theorem append_numbers_from_zero_witness:
  "save_dialogue_to_db (\<lambda>k. 0) [first_row] (u ''run'') [hello]
     = Inr [first_row, first_row\<lparr>row_id := 2\<rparr>]
   \<and> (\<exists>new. [first_row, first_row\<lparr>row_id := 2\<rparr>] = [first_row] @ new
        \<and> map sequence_number new = [0..<length [hello]]
        \<and> map test_name new = replicate (length [hello]) (u ''run'')
        \<and> map (\<lambda>r. PyStr (message_content r)) new = map e_content [hello])"
  using append_numbers_from_zero [OF save_hello_again] save_hello_again by blast

text \<open>
  Claim C3 as stated fails: after one entry is stored under \<open>run\<close> with sequence
  number 0, a second save under \<open>run\<close> stores its entry with sequence number 0
  again, not 1.
\<close>

theorem second_append_restarts_at_zero:
  "save_dialogue_to_db (\<lambda>k. 0) [] (u ''run'') [hello] = Inr [first_row]
   \<and> sequence_number first_row = 0
   \<and> map sequence_number (projr (save_dialogue_to_db (\<lambda>k. 0) [first_row] (u ''run'') [hello]))
       = [0, 0]"
  by (simp add: save_hello save_hello_again) (simp add: first_row_def)





subsection \<open>The dialogue in Russian\<close>


lemma validate_aspect_Inr: "validate_aspect m v = Inr x \<Longrightarrow> v \<noteq> PyNone"
  by (auto simp: validate_aspect_def)

lemma validate_final_Inr: "validate_final m v = Inr x \<Longrightarrow> v \<noteq> PyNone"
  by (auto simp: validate_final_def)











lemma validate_da: "validate_response other m (PyStr da) = Inr ()"
  by (simp add: validate_response_def da_def isalpha_def has_russian_def russian_pattern_def
      in_class_def)





lemma empty_ollama_aborts:
  "test_russian_dialogue other empty_ollama now stamp tbl
     = (tbl, Inl (AssertionError (Response_must_not_be_empty (u ''ollama''))))"
proof -
  have ne: "u ''ollama'' \<noteq> u ''openai''" by (simp add: u_def)
  have three: "[0..<3] = [0, 1, 2::nat]" by (simp add: upt_rec)
  have r: "round_turns other empty_ollama models
      [\<lparr>e_model = Some (u ''system''), e_type = Some (u ''topic''),
        e_content = PyStr topic, e_aspect = None\<rparr>]
     = Inl (AssertionError (Response_must_not_be_empty (u ''ollama'')))"
    by (simp add: models_def join_def get_model_response_def guarded_def empty_ollama_def
        constant_clients_def validate_da ne Let_def)
      (simp add: validate_response_def)
  show ?thesis
    by (simp add: test_russian_dialogue_def three r Let_def)
qed

subsection \<open>The task-solving dialogue\<close>

lemma aspect_turns_Inr:
  "aspect_turns cl as rs es = Inr (rs', es') \<Longrightarrow>
   \<exists>new. es' = es @ new
     \<and> map e_model new = map (\<lambda>p. Some (fst p)) as
     \<and> map e_type new = map (\<lambda>p. Some (u ''aspect_response'')) as
     \<and> map e_aspect new = map (\<lambda>p. Some (snd p)) as
     \<and> (\<forall>e\<in>set new. e_content e \<noteq> PyNone)
     \<and> dom rs' = dom rs \<union> fst ` set as"
proof (induction as arbitrary: rs es)
  case Nil
  then show ?case by simp
next
  case (Cons p as)
  obtain m a where p: "p = (m, a)" by (cases p)
  define response where "response = get_model_response cl m (aspect_prompt a)"
  define e where "e = \<lparr>e_model = Some m, e_type = Some (u ''aspect_response''),
      e_content = response, e_aspect = Some a\<rparr>"
  from Cons.prems p have v: "validate_aspect m response = Inr ()"
    by (cases "validate_aspect m response") (auto simp: response_def Let_def)
  from Cons.prems p v have "aspect_turns cl as (rs(m \<mapsto> response)) (es @ [e]) = Inr (rs', es')"
    by (simp add: response_def e_def Let_def)
  from Cons.IH [OF this] obtain new where new: "es' = (es @ [e]) @ new"
    "map e_model new = map (\<lambda>p. Some (fst p)) as"
    "map e_type new = map (\<lambda>p. Some (u ''aspect_response'')) as"
    "map e_aspect new = map (\<lambda>p. Some (snd p)) as"
    "\<forall>e\<in>set new. e_content e \<noteq> PyNone"
    "dom rs' = dom (rs(m \<mapsto> response)) \<union> fst ` set as"
    by (elim exE conjE) (rule that)
  have c: "e_content e \<noteq> PyNone"
    using validate_aspect_Inr [OF v] by (simp add: e_def)
  have d: "dom rs' = dom rs \<union> fst ` set (p # as)"
    using new(6) by (auto simp: p)
  have "\<forall>x\<in>set (e # new). e_content x \<noteq> PyNone"
    using c new(5) by simp
  with d show ?case
    by (intro exI [of _ "e # new"]) (simp add: new(1-4) e_def p)
qed

lemma final_prompt_Inr:
  assumes "{u ''openai'', u ''ollama'', u ''gigachat''} \<subseteq> dom rs"
  shows "\<exists>p. final_prompt rs = Inr p"
proof -
  from assms obtain a b c where "rs (u ''openai'') = Some a" "rs (u ''ollama'') = Some b"
    "rs (u ''gigachat'') = Some c"
    by (auto simp: dom_def)
  then show ?thesis by (simp add: final_prompt_def subscript_def)
qed

lemma final_turns_Inr:
  "final_turns cl p ms rs es = Inr (rs', es') \<Longrightarrow>
   \<exists>new. es' = es @ new
     \<and> map e_model new = map Some ms
     \<and> map e_type new = map (\<lambda>m. Some (u ''final_response'')) ms
     \<and> map e_aspect new = map (\<lambda>m. None) ms
     \<and> map e_content new = map (\<lambda>m. get_model_response cl m p) ms
     \<and> (\<forall>e\<in>set new. e_content e \<noteq> PyNone)
     \<and> rs' = fold (\<lambda>m r. r(m @ u ''_final'' \<mapsto> get_model_response cl m p)) ms rs"
proof (induction ms arbitrary: rs es)
  case Nil
  then show ?case by simp
next
  case (Cons m ms)
  define response where "response = get_model_response cl m p"
  define e where "e = \<lparr>e_model = Some m, e_type = Some (u ''final_response''),
      e_content = response, e_aspect = None\<rparr>"
  from Cons.prems have v: "validate_final m response = Inr ()"
    by (cases "validate_final m response") (auto simp: response_def Let_def)
  from Cons.prems v
  have "final_turns cl p ms (rs(m @ u ''_final'' \<mapsto> response)) (es @ [e]) = Inr (rs', es')"
    by (simp add: response_def e_def Let_def)
  from Cons.IH [OF this] obtain new where new: "es' = (es @ [e]) @ new"
    "map e_model new = map Some ms"
    "map e_type new = map (\<lambda>m. Some (u ''final_response'')) ms"
    "map e_aspect new = map (\<lambda>m. None) ms"
    "map e_content new = map (\<lambda>m. get_model_response cl m p) ms"
    "\<forall>e\<in>set new. e_content e \<noteq> PyNone"
    "rs' = fold (\<lambda>m r. r(m @ u ''_final'' \<mapsto> get_model_response cl m p)) ms
             (rs(m @ u ''_final'' \<mapsto> response))"
    by (elim exE conjE) (rule that)
  have c: "e_content e \<noteq> PyNone"
    using validate_final_Inr [OF v] by (simp add: e_def)
  have a: "\<forall>x\<in>set (e # new). e_content x \<noteq> PyNone"
    using c new(6) by simp
  have r: "rs' = fold (\<lambda>m r. r(m @ u ''_final'' \<mapsto> get_model_response cl m p)) (m # ms) rs"
    by (simp only: new(7) response_def fold_Cons comp_apply)
  have "es' = es @ (e # new)
     \<and> map e_model (e # new) = map Some (m # ms)
     \<and> map e_type (e # new) = map (\<lambda>m. Some (u ''final_response'')) (m # ms)
     \<and> map e_aspect (e # new) = map (\<lambda>m. None) (m # ms)
     \<and> map e_content (e # new) = map (\<lambda>m. get_model_response cl m p) (m # ms)"
    by (simp add: new(1-5) e_def response_def)
  with a r show ?case by blast
qed

lemma final_responses_models:
  "final_responses (fold (\<lambda>m r. r(m @ u ''_final'' \<mapsto> f m)) models rs) models
     = Inr (map f models)"
proof -
  have "u ''openai'' @ u ''_final'' \<noteq> u ''ollama'' @ u ''_final''"
       "u ''openai'' @ u ''_final'' \<noteq> u ''gigachat'' @ u ''_final''"
       "u ''ollama'' @ u ''_final'' \<noteq> u ''gigachat'' @ u ''_final''"
    by (simp_all add: u_def)
  then show ?thesis
    by (simp add: models_def subscript_def)
qed

lemma task_dialogue_Inr:
  assumes "task_dialogue cl = Inr (rs, es)"
  shows "\<exists>p. final_responses rs models = Inr (map (\<lambda>m. get_model_response cl m p) models)
    \<and> map e_content (drop 4 es) = map (\<lambda>m. get_model_response cl m p) models
    \<and> map e_model es = map Some (u ''system'' # models @ models)
    \<and> map e_type es =
        Some (u ''task'') # replicate 3 (Some (u ''aspect_response''))
          @ replicate 3 (Some (u ''final_response''))
    \<and> map e_aspect es = None # map (\<lambda>p. Some (snd p)) aspects @ replicate 3 None
    \<and> (\<forall>e\<in>set es. e_content e \<noteq> PyNone)"
proof -
  define e0 where "e0 = \<lparr>e_model = Some (u ''system''), e_type = Some (u ''task''),
      e_content = PyStr task, e_aspect = None\<rparr>"
  from assms obtain rs1 es1 where a: "aspect_turns cl aspects Map.empty [e0] = Inr (rs1, es1)"
    by (cases "aspect_turns cl aspects Map.empty [e0]")
      (auto simp: task_dialogue_def e0_def Let_def)
  from assms a obtain p where p: "final_prompt rs1 = Inr p"
    by (cases "final_prompt rs1") (auto simp: task_dialogue_def e0_def Let_def)
  from assms a p have f: "final_turns cl p models rs1 es1 = Inr (rs, es)"
    by (simp add: task_dialogue_def e0_def Let_def)
  from aspect_turns_Inr [OF a] obtain new1 where new1: "es1 = [e0] @ new1"
    "map e_model new1 = map (\<lambda>p. Some (fst p)) aspects"
    "map e_type new1 = map (\<lambda>p. Some (u ''aspect_response'')) aspects"
    "map e_aspect new1 = map (\<lambda>p. Some (snd p)) aspects"
    "\<forall>e\<in>set new1. e_content e \<noteq> PyNone"
    by (elim exE conjE) (rule that)
  from final_turns_Inr [OF f] obtain new2 where new2: "es = es1 @ new2"
    "map e_model new2 = map Some models"
    "map e_type new2 = map (\<lambda>m. Some (u ''final_response'')) models"
    "map e_aspect new2 = map (\<lambda>m. None) models"
    "map e_content new2 = map (\<lambda>m. get_model_response cl m p) models"
    "\<forall>e\<in>set new2. e_content e \<noteq> PyNone"
    "rs = fold (\<lambda>m r. r(m @ u ''_final'' \<mapsto> get_model_response cl m p)) models rs1"
    by (elim exE conjE) (rule that)
  have l1: "length new1 = 3"
    using arg_cong [OF new1(2), of length] by (simp add: aspects_def)
  have es: "es = e0 # new1 @ new2"
    by (simp add: new1(1) new2(1))
  have c1: "final_responses rs models = Inr (map (\<lambda>m. get_model_response cl m p) models)"
    unfolding new2(7) by (rule final_responses_models)
  have c2: "map e_content (drop 4 es) = map (\<lambda>m. get_model_response cl m p) models"
    by (simp add: es l1 new2(5))
  have c3: "map e_model es = map Some (u ''system'' # models @ models)"
    by (simp add: es new1(2) new2(2)) (simp add: e0_def aspects_def models_def)
  have c4: "map e_type es =
        Some (u ''task'') # replicate 3 (Some (u ''aspect_response''))
          @ replicate 3 (Some (u ''final_response''))"
    by (simp add: es new1(3) new2(3))
      (simp add: e0_def aspects_def models_def numeral_3_eq_3)
  have c5: "map e_aspect es = None # map (\<lambda>p. Some (snd p)) aspects @ replicate 3 None"
    by (simp add: es new1(4) new2(4)) (simp add: e0_def models_def numeral_3_eq_3)
  have c6: "\<forall>e\<in>set es. e_content e \<noteq> PyNone"
    using new1(5) new2(6) by (auto simp: es e0_def)
  show ?thesis
    using c1 c2 c3 c4 c5 c6 by (intro exI [of _ p] conjI)
qed

lemma task_test_outcome:
  assumes "task_dialogue cl = Inr (rs, es)"
  shows "\<exists>finals.
      final_responses rs models = Inr finals
    \<and> finals = map e_content (drop 4 es)
    \<and> length finals = length models
    \<and> test_task_solving_dialogue cl now stamp tbl =
        (case save_dialogue_to_db now tbl (u ''task_solving_'' @ stamp) es of
           Inl err \<Rightarrow> (tbl, Inl err)
         | Inr tbl' \<Rightarrow>
             (tbl', if card (set finals) = length models then Inr ()
                    else Inl (AssertionError Final_responses_must_be_unique)))"
proof -
  from task_dialogue_Inr [OF assms] obtain p where
    p: "final_responses rs models = Inr (map (\<lambda>m. get_model_response cl m p) models)"
       "map e_content (drop 4 es) = map (\<lambda>m. get_model_response cl m p) models"
    by (elim exE conjE) (rule that)
  define finals where "finals = map (\<lambda>m. get_model_response cl m p) models"
  have t: "test_task_solving_dialogue cl now stamp tbl =
        (case save_dialogue_to_db now tbl (u ''task_solving_'' @ stamp) es of
           Inl err \<Rightarrow> (tbl, Inl err)
         | Inr tbl' \<Rightarrow>
             (tbl', if card (set finals) = length models then Inr ()
                    else Inl (AssertionError Final_responses_must_be_unique)))"
    by (simp add: test_task_solving_dialogue_def assms p(1) finals_def Let_def split: sum.splits)
  have l: "length finals = length models" by (simp add: finals_def)
  have f1: "final_responses rs models = Inr finals" by (simp add: p(1) finals_def)
  have f2: "finals = map e_content (drop 4 es)" by (simp add: p(2) finals_def)
  show ?thesis
    using f1 f2 l t by (intro exI [of _ finals] conjI)
qed

lemma task_test_saved:
  assumes "task_dialogue cl = Inr (rs, es)"
    and "save_dialogue_to_db now tbl (u ''task_solving_'' @ stamp) es = Inr tbl'"
  shows "test_task_solving_dialogue cl now stamp tbl =
      (tbl', if card (set (map e_content (drop 4 es))) = length models then Inr ()
             else Inl (AssertionError Final_responses_must_be_unique))"
proof -
  from task_test_outcome [OF assms(1), of now stamp tbl] obtain finals where
    f: "final_responses rs models = Inr finals"
       "finals = map e_content (drop 4 es)"
       "length finals = length models"
       "test_task_solving_dialogue cl now stamp tbl =
        (case save_dialogue_to_db now tbl (u ''task_solving_'' @ stamp) es of
           Inl err \<Rightarrow> (tbl, Inl err)
         | Inr tbl' \<Rightarrow>
             (tbl', if card (set finals) = length models then Inr ()
                    else Inl (AssertionError Final_responses_must_be_unique)))"
    by (elim exE conjE) (rule that)
  show ?thesis
    by (simp add: f(4) assms(2)) (simp add: f(2))
qed

lemma task_test_not_saved:
  assumes "task_dialogue cl = Inr (rs, es)"
    and "save_dialogue_to_db now tbl (u ''task_solving_'' @ stamp) es = Inl err"
  shows "test_task_solving_dialogue cl now stamp tbl = (tbl, Inl err)"
  by (simp add: test_task_solving_dialogue_def assms Let_def)

lemma aspect_turns_contents:
  assumes "\<forall>p\<in>set as. \<forall>q. P (get_model_response cl (fst p) q)"
  shows "aspect_turns cl as rs es = Inr (rs', es') \<Longrightarrow> \<forall>e\<in>set es. P (e_content e) \<Longrightarrow>
    \<forall>e\<in>set es'. P (e_content e)"
  using assms
proof (induction as arbitrary: rs es)
  case Nil
  then show ?case by simp
next
  case (Cons p as)
  obtain m a where p: "p = (m, a)" by (cases p)
  define response where "response = get_model_response cl m (aspect_prompt a)"
  define e where "e = \<lparr>e_model = Some m, e_type = Some (u ''aspect_response''),
      e_content = response, e_aspect = Some a\<rparr>"
  from Cons.prems(1) p have v: "validate_aspect m response = Inr ()"
    by (cases "validate_aspect m response") (auto simp: response_def Let_def)
  from Cons.prems(1) p v
  have r: "aspect_turns cl as (rs(m \<mapsto> response)) (es @ [e]) = Inr (rs', es')"
    by (simp add: response_def e_def Let_def)
  from Cons.prems(3) p have "P response" by (simp add: response_def)
  with Cons.prems(2) have a: "\<forall>x\<in>set (es @ [e]). P (e_content x)"
    by (simp add: e_def)
  from Cons.prems(3) have b: "\<forall>p\<in>set as. \<forall>q. P (get_model_response cl (fst p) q)"
    by simp
  from Cons.IH [OF r a b] show ?case .
qed

lemma final_turns_contents:
  assumes "\<forall>m\<in>set ms. \<forall>q. P (get_model_response cl m q)"
  shows "final_turns cl p ms rs es = Inr (rs', es') \<Longrightarrow> \<forall>e\<in>set es. P (e_content e) \<Longrightarrow>
    \<forall>e\<in>set es'. P (e_content e)"
  using assms
proof (induction ms arbitrary: rs es)
  case Nil
  then show ?case by simp
next
  case (Cons m ms)
  define response where "response = get_model_response cl m p"
  define e where "e = \<lparr>e_model = Some m, e_type = Some (u ''final_response''),
      e_content = response, e_aspect = None\<rparr>"
  from Cons.prems(1) have v: "validate_final m response = Inr ()"
    by (cases "validate_final m response") (auto simp: response_def Let_def)
  from Cons.prems(1) v
  have r: "final_turns cl p ms (rs(m @ u ''_final'' \<mapsto> response)) (es @ [e]) = Inr (rs', es')"
    by (simp add: response_def e_def Let_def)
  from Cons.prems(3) have "P response" by (simp add: response_def)
  with Cons.prems(2) have a: "\<forall>x\<in>set (es @ [e]). P (e_content x)"
    by (simp add: e_def)
  from Cons.prems(3) have b: "\<forall>m\<in>set ms. \<forall>q. P (get_model_response cl m q)"
    by simp
  from Cons.IH [OF r a b] show ?case .
qed

lemma task_dialogue_contents:
  assumes "\<forall>m\<in>set models. \<forall>q. P (get_model_response cl m q)"
    and "P (PyStr task)"
    and "task_dialogue cl = Inr (rs, es)"
  shows "\<forall>e\<in>set es. P (e_content e)"
proof -
  define e0 where "e0 = \<lparr>e_model = Some (u ''system''), e_type = Some (u ''task''),
      e_content = PyStr task, e_aspect = None\<rparr>"
  from assms(3) obtain rs1 es1 where a: "aspect_turns cl aspects Map.empty [e0] = Inr (rs1, es1)"
    by (cases "aspect_turns cl aspects Map.empty [e0]")
      (auto simp: task_dialogue_def e0_def Let_def)
  from assms(3) a obtain p where p: "final_prompt rs1 = Inr p"
    by (cases "final_prompt rs1") (auto simp: task_dialogue_def e0_def Let_def)
  from assms(3) a p have f: "final_turns cl p models rs1 es1 = Inr (rs, es)"
    by (simp add: task_dialogue_def e0_def Let_def)
  have "fst ` set aspects = set models"
    by (simp add: aspects_def models_def)
  then have h: "\<forall>p\<in>set aspects. \<forall>q. P (get_model_response cl (fst p) q)"
    using assms(1) by (metis imageI)
  have "\<forall>e\<in>set [e0]. P (e_content e)"
    using assms(2) by (simp add: e0_def)
  from aspect_turns_contents [OF h a this] have "\<forall>e\<in>set es1. P (e_content e)" .
  from final_turns_contents [OF assms(1) f this] show ?thesis .
qed

lemma task_dialogue_storable:
  assumes "task_dialogue cl = Inr (rs, es)"
    and "\<forall>m\<in>set models. \<forall>q. encodable_text (get_model_response cl m q)"
  shows "\<forall>e\<in>set es. storable e"
proof -
  from task_dialogue_Inr [OF assms(1)] obtain p where
    p: "map e_model es = map Some (u ''system'' # models @ models)"
       "map e_type es =
        Some (u ''task'') # replicate 3 (Some (u ''aspect_response''))
          @ replicate 3 (Some (u ''final_response''))"
       "map e_aspect es = None # map (\<lambda>p. Some (snd p)) aspects @ replicate 3 None"
    by (elim exE conjE) (rule that)
  have "encodable_text (PyStr task)" by (simp add: encodable_text_def)
  from task_dialogue_contents [OF assms(2) this assms(1)]
  have c: "\<forall>e\<in>set es. encodable_text (e_content e)" .
  have m: "\<forall>x\<in>set (map e_model es). encodable (case x of None \<Rightarrow> u ''system'' | Some m \<Rightarrow> m)"
    by (simp only: p(1)) (simp add: models_def)
  have t: "\<forall>x\<in>set (map e_type es). encodable (case x of None \<Rightarrow> u ''message'' | Some t \<Rightarrow> t)"
    by (simp only: p(2)) simp
  have a: "\<forall>x\<in>set (map e_aspect es). (case x of None \<Rightarrow> True | Some a \<Rightarrow> encodable a)"
    by (simp only: p(3)) (simp add: aspects_def)
  from storable_by_maps [OF m t a c] show ?thesis .
qed

lemma task_dialogue_saved:
  assumes "task_dialogue cl = Inr (rs, es)"
    and "\<forall>m\<in>set models. \<forall>q. encodable_text (get_model_response cl m q)"
    and "encodable stamp"
  shows "\<exists>tbl'. save_dialogue_to_db now tbl (u ''task_solving_'' @ stamp) es = Inr tbl'"
proof -
  have "encodable (u ''task_solving_'' @ stamp)" using assms(3) by simp
  from save_texts [OF this task_dialogue_storable [OF assms(1) assms(2)]] show ?thesis .
qed

lemma aspect_turns_total:
  assumes "\<forall>p\<in>set as. \<forall>q. validate_aspect (fst p) (get_model_response cl (fst p) q) = Inr ()"
  shows "\<exists>rs' es'. aspect_turns cl as rs es = Inr (rs', es')"
  using assms
proof (induction as arbitrary: rs es)
  case Nil
  then show ?case by simp
next
  case (Cons p as)
  obtain m a where p: "p = (m, a)" by (cases p)
  from Cons.prems p have v: "validate_aspect m (get_model_response cl m (aspect_prompt a)) = Inr ()"
    by simp
  from Cons.prems
  have "\<forall>p\<in>set as. \<forall>q. validate_aspect (fst p) (get_model_response cl (fst p) q) = Inr ()"
    by simp
  from Cons.IH [OF this] show ?case
    by (simp add: p v Let_def)
qed

lemma final_turns_total:
  assumes "\<forall>m\<in>set ms. \<forall>q. validate_final m (get_model_response cl m q) = Inr ()"
  shows "\<exists>rs' es'. final_turns cl p ms rs es = Inr (rs', es')"
  using assms
proof (induction ms arbitrary: rs es)
  case Nil
  then show ?case by simp
next
  case (Cons m ms)
  from Cons.prems have v: "validate_final m (get_model_response cl m p) = Inr ()"
    by simp
  from Cons.prems
  have "\<forall>m\<in>set ms. \<forall>q. validate_final m (get_model_response cl m q) = Inr ()"
    by simp
  from Cons.IH [OF this] show ?case
    by (simp add: v Let_def)
qed

lemma task_dialogue_total:
  assumes "\<forall>m\<in>set models. \<forall>q. validate_aspect m (get_model_response cl m q) = Inr ()"
    and "\<forall>m\<in>set models. \<forall>q. validate_final m (get_model_response cl m q) = Inr ()"
  shows "\<exists>rs es. task_dialogue cl = Inr (rs, es)"
proof -
  define e0 where "e0 = \<lparr>e_model = Some (u ''system''), e_type = Some (u ''task''),
      e_content = PyStr task, e_aspect = None\<rparr>"
  have fa: "fst ` set aspects = set models"
    by (simp add: aspects_def models_def)
  then have "\<forall>p\<in>set aspects. \<forall>q. validate_aspect (fst p) (get_model_response cl (fst p) q) = Inr ()"
    using assms(1) by (metis imageI)
  from aspect_turns_total [OF this]
  obtain rs1 es1 where a: "aspect_turns cl aspects Map.empty [e0] = Inr (rs1, es1)"
    by blast
  from aspect_turns_Inr [OF a] have "dom rs1 = fst ` set aspects" by auto
  then have "{u ''openai'', u ''ollama'', u ''gigachat''} \<subseteq> dom rs1"
    by (simp add: fa) (simp add: models_def)
  from final_prompt_Inr [OF this] obtain p where p: "final_prompt rs1 = Inr p" by blast
  from final_turns_total [OF assms(2)]
  obtain rs es where "final_turns cl p models rs1 es1 = Inr (rs, es)" by blast
  with a p show ?thesis
    by (simp add: task_dialogue_def e0_def Let_def)
qed

lemma aspect_turns_Inl:
  "aspect_turns cl as rs es = Inl err \<Longrightarrow> err \<noteq> AssertionError Final_responses_must_be_unique"
proof (induction as arbitrary: rs es)
  case Nil
  then show ?case by simp
next
  case (Cons p as)
  obtain m a where p: "p = (m, a)" by (cases p)
  show ?case
  proof (cases "validate_aspect m (get_model_response cl m (aspect_prompt a))")
    case (Inl e)
    with Cons.prems p have "err = e" by (simp add: Let_def)
    with Inl show ?thesis
      by (auto simp: validate_aspect_def split: pyval.splits if_splits)
  next
    case (Inr x)
    with Cons.prems p Cons.IH show ?thesis by (simp add: Let_def)
  qed
qed

lemma final_turns_Inl:
  "final_turns cl p ms rs es = Inl err \<Longrightarrow> err \<noteq> AssertionError Final_responses_must_be_unique"
proof (induction ms arbitrary: rs es)
  case Nil
  then show ?case by simp
next
  case (Cons m ms)
  show ?case
  proof (cases "validate_final m (get_model_response cl m p)")
    case (Inl e)
    with Cons.prems have "err = e" by (simp add: Let_def)
    with Inl show ?thesis
      by (auto simp: validate_final_def split: pyval.splits if_splits)
  next
    case (Inr x)
    with Cons.prems Cons.IH show ?thesis by (simp add: Let_def)
  qed
qed

lemma final_prompt_Inl: "final_prompt rs = Inl err \<Longrightarrow> err = KeyError"
  by (auto simp: final_prompt_def subscript_def split: option.splits)

lemma task_dialogue_Inl:
  assumes "task_dialogue cl = Inl err"
  shows "err \<noteq> AssertionError Final_responses_must_be_unique"
proof -
  define e0 where "e0 = \<lparr>e_model = Some (u ''system''), e_type = Some (u ''task''),
      e_content = PyStr task, e_aspect = None\<rparr>"
  show ?thesis
  proof (cases "aspect_turns cl aspects Map.empty [e0]")
    case (Inl e)
    with assms have "err = e" by (simp add: task_dialogue_def e0_def Let_def)
    with aspect_turns_Inl [OF Inl] show ?thesis by simp
  next
    case (Inr x)
    obtain rs1 es1 where x: "x = (rs1, es1)" by (cases x)
    show ?thesis
    proof (cases "final_prompt rs1")
      case (Inl e)
      with assms Inr x have "err = e" by (simp add: task_dialogue_def e0_def Let_def)
      with final_prompt_Inl [OF Inl] show ?thesis by simp
    next
      case p: (Inr p)
      with assms Inr x have "final_turns cl p models rs1 es1 = Inl err"
        by (simp add: task_dialogue_def e0_def Let_def)
      from final_turns_Inl [OF this] show ?thesis .
    qed
  qed
qed

lemma task_test_aborted:
  "task_dialogue cl = Inl err \<Longrightarrow> test_task_solving_dialogue cl now stamp tbl = (tbl, Inl err)"
  by (simp add: test_task_solving_dialogue_def Let_def)

lemma validate_final_words:
  "validate_final m (PyStr words20) = Inr ()"
  "validate_final m (PyStr words21) = Inr ()"
  "validate_final m (PyStr words22) = Inr ()"
  by (simp_all add: validate_final_def words22_def words21_def words20_def has_russian_def
      russian_pattern_def in_class_def split_def isspace_def min_words_def)

lemma validate_aspect_words:
  "validate_aspect m (PyStr words20) = Inr ()"
  "validate_aspect m (PyStr words21) = Inr ()"
  "validate_aspect m (PyStr words22) = Inr ()"
  "validate_aspect m (PyStr da) = Inr ()"
  by (simp_all add: validate_aspect_def words22_def words21_def words20_def da_def has_russian_def
      russian_pattern_def in_class_def)

lemma constant_clients_response:
  "get_model_response (constant_clients a b c) (u ''openai'') q = a"
  "get_model_response (constant_clients a b c) (u ''ollama'') q = b"
  "get_model_response (constant_clients a b c) (u ''gigachat'') q = c"
proof -
  have "u ''ollama'' \<noteq> u ''openai''" "u ''gigachat'' \<noteq> u ''openai''"
    "u ''gigachat'' \<noteq> u ''ollama''"
    by (simp_all add: u_def)
  then show "get_model_response (constant_clients a b c) (u ''openai'') q = a"
    "get_model_response (constant_clients a b c) (u ''ollama'') q = b"
    "get_model_response (constant_clients a b c) (u ''gigachat'') q = c"
    by (simp_all add: get_model_response_def guarded_def constant_clients_def)
qed

lemma same_clients_dialogue: "\<exists>rs es. task_dialogue same_clients = Inr (rs, es)"
  by (rule task_dialogue_total)
    (simp_all add: models_def same_clients_def constant_clients_response validate_final_words
      validate_aspect_words)

lemma distinct_clients_dialogue: "\<exists>rs es. task_dialogue distinct_clients = Inr (rs, es)"
  by (rule task_dialogue_total)
    (simp_all add: models_def distinct_clients_def constant_clients_response validate_final_words
      validate_aspect_words)

lemma same_clients_finals:
  assumes "task_dialogue same_clients = Inr (rs, es)"
  shows "map e_content (drop 4 es) = [PyStr words20, PyStr words20, PyStr words20]"
proof -
  from task_dialogue_Inr [OF assms] obtain p where
    "map e_content (drop 4 es) = map (\<lambda>m. get_model_response same_clients m p) models"
    by (elim exE conjE) (rule that)
  then show ?thesis
    by (simp add: models_def same_clients_def constant_clients_response)
qed

lemma distinct_clients_finals:
  assumes "task_dialogue distinct_clients = Inr (rs, es)"
  shows "map e_content (drop 4 es) = [PyStr words20, PyStr words21, PyStr words22]"
proof -
  from task_dialogue_Inr [OF assms] obtain p where
    "map e_content (drop 4 es) = map (\<lambda>m. get_model_response distinct_clients m p) models"
    by (elim exE conjE) (rule that)
  then show ?thesis
    by (simp add: models_def distinct_clients_def constant_clients_response)
qed

lemma words_distinct: "words20 \<noteq> words21" "words20 \<noteq> words22" "words21 \<noteq> words22"
  by (simp_all add: words22_def words21_def)

lemma constant_clients_encodable:
  assumes "encodable_text a" and "encodable_text b" and "encodable_text c"
  shows "\<forall>m\<in>set models. \<forall>q. encodable_text (get_model_response (constant_clients a b c) m q)"
  using assms by (simp add: models_def constant_clients_response)

lemma same_clients_saved:
  assumes "task_dialogue same_clients = Inr (rs, es)"
  shows "\<exists>tbl'. save_dialogue_to_db now tbl (u ''task_solving_'' @ []) es = Inr tbl'"
proof -
  have "\<forall>m\<in>set models. \<forall>q. encodable_text (get_model_response same_clients m q)"
    unfolding same_clients_def
    by (rule constant_clients_encodable) (simp_all add: encodable_text_def)
  moreover have "encodable []" by (simp add: encodable_def)
  ultimately show ?thesis by (rule task_dialogue_saved [OF assms])
qed

lemma distinct_clients_saved:
  assumes "task_dialogue distinct_clients = Inr (rs, es)"
  shows "\<exists>tbl'. save_dialogue_to_db now tbl (u ''task_solving_'' @ []) es = Inr tbl'"
proof -
  have "\<forall>m\<in>set models. \<forall>q. encodable_text (get_model_response distinct_clients m q)"
    unfolding distinct_clients_def
    by (rule constant_clients_encodable) (simp_all add: encodable_text_def)
  moreover have "encodable []" by (simp add: encodable_def)
  ultimately show ?thesis by (rule task_dialogue_saved [OF assms])
qed

lemma same_clients_outcome:
  "snd (test_task_solving_dialogue same_clients now [] tbl)
     = Inl (AssertionError Final_responses_must_be_unique)"
proof -
  from same_clients_dialogue obtain rs es where s: "task_dialogue same_clients = Inr (rs, es)"
    by blast
  from same_clients_saved [OF s]
  obtain tbl' where "save_dialogue_to_db now tbl (u ''task_solving_'' @ []) es = Inr tbl'"
    by blast
  from task_test_saved [OF s this] show ?thesis
    by (simp add: same_clients_finals [OF s] models_def)
qed

lemma distinct_clients_outcome:
  "snd (test_task_solving_dialogue distinct_clients now [] tbl) = Inr ()"
proof -
  from distinct_clients_dialogue
  obtain rs es where s: "task_dialogue distinct_clients = Inr (rs, es)"
    by blast
  from distinct_clients_saved [OF s]
  obtain tbl' where "save_dialogue_to_db now tbl (u ''task_solving_'' @ []) es = Inr tbl'"
    by blast
  from task_test_saved [OF s this] show ?thesis
    by (simp add: distinct_clients_finals [OF s] models_def words_distinct)
qed

lemma validate_surrogate_text:
  "validate_aspect m (PyStr surrogate_text) = Inr ()"
  "validate_final m (PyStr surrogate_text) = Inr ()"
  by (simp_all add: validate_aspect_def validate_final_def surrogate_text_def words20_def
      has_russian_def russian_pattern_def in_class_def split_def isspace_def min_words_def)

lemma surrogate_clients_dialogue: "\<exists>rs es. task_dialogue surrogate_clients = Inr (rs, es)"
  by (rule task_dialogue_total)
    (simp_all add: models_def surrogate_clients_def constant_clients_response
      validate_surrogate_text)

lemma surrogate_clients_finals:
  assumes "task_dialogue surrogate_clients = Inr (rs, es)"
  shows "map e_content (drop 4 es)
    = [PyStr surrogate_text, PyStr surrogate_text, PyStr surrogate_text]"
proof -
  from task_dialogue_Inr [OF assms] obtain p where
    "map e_content (drop 4 es) = map (\<lambda>m. get_model_response surrogate_clients m p) models"
    by (elim exE conjE) (rule that)
  then show ?thesis
    by (simp add: models_def surrogate_clients_def constant_clients_response)
qed

lemma save_unencodable:
  assumes "\<forall>e\<in>set es. e_content e \<noteq> PyNone"
    and "\<exists>e\<in>set es. \<not> encodable_text (e_content e)"
  shows "save_dialogue_to_db now tbl name es = Inl UnicodeEncodeError"
proof -
  have s: "snd ` set (enumerate 0 es) = set es"
    by (metis map_snd_enumerate set_map)
  have a: "\<forall>p\<in>set (enumerate 0 es). e_content (snd p) \<noteq> PyNone"
    using assms(1) s by auto
  from assms(2) obtain e where e: "e \<in> set es" "\<not> encodable_text (e_content e)"
    by blast
  from e(1) s obtain p where "p \<in> set (enumerate 0 es)" "snd p = e"
    by (metis imageE)
  with e(2) have b: "\<exists>p\<in>set (enumerate 0 es). \<not> encodable_text (e_content (snd p))"
    by blast
  show ?thesis
    unfolding save_dialogue_to_db_def by (rule insert_all_unencodable [OF a b])
qed

lemma surrogate_clients_not_saved:
  assumes "task_dialogue surrogate_clients = Inr (rs, es)"
  shows "save_dialogue_to_db now tbl name es = Inl UnicodeEncodeError"
proof -
  from task_dialogue_Inr [OF assms] have n: "\<forall>e\<in>set es. e_content e \<noteq> PyNone"
    by (elim exE conjE)
  have "PyStr surrogate_text \<in> set (map e_content (drop 4 es))"
    by (simp add: surrogate_clients_finals [OF assms])
  then obtain e where "e \<in> set (drop 4 es)" "e_content e = PyStr surrogate_text"
    by auto
  moreover have "\<not> encodable_text (PyStr surrogate_text)"
    by (simp add: encodable_text_def surrogate_text_def encodable_def)
  ultimately have "\<exists>e\<in>set es. \<not> encodable_text (e_content e)"
    by (metis in_set_dropD)
  from save_unencodable [OF n this] show ?thesis .
qed

lemma surrogate_clients_outcome:
  "test_task_solving_dialogue surrogate_clients now stamp tbl = (tbl, Inl UnicodeEncodeError)"
proof -
  from surrogate_clients_dialogue
  obtain rs es where s: "task_dialogue surrogate_clients = Inr (rs, es)"
    by blast
  from task_test_not_saved [OF s surrogate_clients_not_saved [OF s]] show ?thesis .
qed

text \<open>
  Claim C5, as the code has it. When the task-solving dialogue has produced its final
  responses, the test passes only if the set of the three final responses has three
  elements. The dialogue is saved before the final responses are compared: when the
  save succeeds, the test ends with the failure of uniqueness as soon as two of the
  final responses are equal; when the save raises, the test ends with that error and
  the table is as before.
\<close>

theorem uniqueness_law:
  assumes "task_dialogue cl = Inr (responses, dialogue_entries)"
  shows "\<exists>finals. final_responses responses models = Inr finals
    \<and> finals = map e_content (drop 4 dialogue_entries)
    \<and> length finals = length models
    \<and> (snd (test_task_solving_dialogue cl now stamp tbl) = Inr () \<longrightarrow>
          card (set finals) = length finals)
    \<and> (\<not> distinct finals
        \<and> (\<exists>tbl'. save_dialogue_to_db now tbl (u ''task_solving_'' @ stamp) dialogue_entries
                    = Inr tbl') \<longrightarrow>
          snd (test_task_solving_dialogue cl now stamp tbl)
            = Inl (AssertionError Final_responses_must_be_unique))
    \<and> (\<forall>err. save_dialogue_to_db now tbl (u ''task_solving_'' @ stamp) dialogue_entries
                = Inl err \<longrightarrow>
          test_task_solving_dialogue cl now stamp tbl = (tbl, Inl err))"
proof -
  from task_test_outcome [OF assms, of now stamp tbl] obtain finals where
    f: "final_responses responses models = Inr finals"
       "finals = map e_content (drop 4 dialogue_entries)"
       "length finals = length models"
       "test_task_solving_dialogue cl now stamp tbl =
        (case save_dialogue_to_db now tbl (u ''task_solving_'' @ stamp) dialogue_entries of
           Inl err \<Rightarrow> (tbl, Inl err)
         | Inr tbl' \<Rightarrow>
             (tbl', if card (set finals) = length models then Inr ()
                    else Inl (AssertionError Final_responses_must_be_unique)))"
    by (elim exE conjE) (rule that)
  have a: "snd (test_task_solving_dialogue cl now stamp tbl) = Inr () \<longrightarrow>
      card (set finals) = length finals"
    by (auto simp: f(3) f(4) split: sum.splits if_splits)
  have b: "\<not> distinct finals
        \<and> (\<exists>tbl'. save_dialogue_to_db now tbl (u ''task_solving_'' @ stamp) dialogue_entries
                    = Inr tbl') \<longrightarrow>
      snd (test_task_solving_dialogue cl now stamp tbl)
        = Inl (AssertionError Final_responses_must_be_unique)"
    using card_distinct [of finals] by (auto simp: f(3) f(4))
  have c: "\<forall>err. save_dialogue_to_db now tbl (u ''task_solving_'' @ stamp) dialogue_entries
                = Inl err \<longrightarrow>
      test_task_solving_dialogue cl now stamp tbl = (tbl, Inl err)"
    by (simp add: f(4))
  show ?thesis
    using f(1) f(2) f(3) a b c by (intro exI [of _ finals] conjI)
qed

text \<open>
  Claim C5: the theorem at backends that return three different texts, at backends
  that all return the same text, and at backends that all return the text with the
  lone surrogate.
\<close>

theorem uniqueness_law_witness:
  "(\<exists>rs es. task_dialogue distinct_clients = Inr (rs, es)
      \<and> snd (test_task_solving_dialogue distinct_clients (\<lambda>k. k) [] []) = Inr ()
      \<and> card (set (map e_content (drop 4 es))) = 3)
   \<and> (\<exists>rs es tbl'. task_dialogue same_clients = Inr (rs, es)
      \<and> \<not> distinct (map e_content (drop 4 es))
      \<and> save_dialogue_to_db (\<lambda>k. k) [] (u ''task_solving_'' @ []) es = Inr tbl'
      \<and> snd (test_task_solving_dialogue same_clients (\<lambda>k. k) [] [])
          = Inl (AssertionError Final_responses_must_be_unique))
   \<and> (\<exists>rs es. task_dialogue surrogate_clients = Inr (rs, es)
      \<and> save_dialogue_to_db (\<lambda>k. k) [] (u ''task_solving_'' @ []) es = Inl UnicodeEncodeError
      \<and> test_task_solving_dialogue surrogate_clients (\<lambda>k. k) [] [] = ([], Inl UnicodeEncodeError))"
proof -
  from distinct_clients_dialogue obtain rs1 es1
    where d: "task_dialogue distinct_clients = Inr (rs1, es1)"
    by blast
  have p: "snd (test_task_solving_dialogue distinct_clients (\<lambda>k. k) [] []) = Inr ()"
    by (rule distinct_clients_outcome)
  from uniqueness_law [OF d, of "\<lambda>k. k" "[]" "[]"] p distinct_clients_finals [OF d]
  have c: "card (set (map e_content (drop 4 es1))) = 3"
    by auto
  from same_clients_dialogue obtain rs2 es2 where s: "task_dialogue same_clients = Inr (rs2, es2)"
    by blast
  from same_clients_saved [OF s] obtain tbl2
    where sv: "save_dialogue_to_db (\<lambda>k. k) [] (u ''task_solving_'' @ []) es2 = Inr tbl2"
    by blast
  have nd: "\<not> distinct (map e_content (drop 4 es2))"
    by (simp add: same_clients_finals [OF s])
  from uniqueness_law [OF s, of "\<lambda>k. k" "[]" "[]"] nd sv
  have a: "snd (test_task_solving_dialogue same_clients (\<lambda>k. k) [] [])
       = Inl (AssertionError Final_responses_must_be_unique)"
    by auto
  from surrogate_clients_dialogue obtain rs3 es3
    where g: "task_dialogue surrogate_clients = Inr (rs3, es3)"
    by blast
  have ns: "save_dialogue_to_db (\<lambda>k. k) [] (u ''task_solving_'' @ []) es3 = Inl UnicodeEncodeError"
    by (rule surrogate_clients_not_saved [OF g])
  from uniqueness_law [OF g, of "\<lambda>k. k" "[]" "[]"] ns
  have e: "test_task_solving_dialogue surrogate_clients (\<lambda>k. k) [] [] = ([], Inl UnicodeEncodeError)"
    by auto
  from d p c have one: "\<exists>rs es. task_dialogue distinct_clients = Inr (rs, es)
      \<and> snd (test_task_solving_dialogue distinct_clients (\<lambda>k. k) [] []) = Inr ()
      \<and> card (set (map e_content (drop 4 es))) = 3"
    by (intro exI [of _ rs1] exI [of _ es1] conjI)
  from s nd sv a have two: "\<exists>rs es tbl'. task_dialogue same_clients = Inr (rs, es)
      \<and> \<not> distinct (map e_content (drop 4 es))
      \<and> save_dialogue_to_db (\<lambda>k. k) [] (u ''task_solving_'' @ []) es = Inr tbl'
      \<and> snd (test_task_solving_dialogue same_clients (\<lambda>k. k) [] [])
          = Inl (AssertionError Final_responses_must_be_unique)"
    by (intro exI [of _ rs2] exI [of _ es2] exI [of _ tbl2] conjI)
  from g ns e have three: "\<exists>rs es. task_dialogue surrogate_clients = Inr (rs, es)
      \<and> save_dialogue_to_db (\<lambda>k. k) [] (u ''task_solving_'' @ []) es = Inl UnicodeEncodeError
      \<and> test_task_solving_dialogue surrogate_clients (\<lambda>k. k) [] [] = ([], Inl UnicodeEncodeError)"
    by (intro exI [of _ rs3] exI [of _ es3] conjI)
  from one two three show ?thesis by (intro conjI)
qed

text \<open>
  Claim C5 as stated fails: when every backend returns the same text of twenty-one
  words, the last of them the lone surrogate U+D800, every response passes its
  validation and the three final responses are equal, but the test ends in the save
  with the error of the encoding, not with the failure of uniqueness.
\<close>

theorem identical_finals_abort_in_save:
  "validate_aspect (u ''openai'') (PyStr surrogate_text) = Inr ()
   \<and> validate_final (u ''openai'') (PyStr surrogate_text) = Inr ()
   \<and> task_dialogue surrogate_clients = Inr (projr (task_dialogue surrogate_clients))
   \<and> map e_content (drop 4 (snd (projr (task_dialogue surrogate_clients))))
       = [PyStr surrogate_text, PyStr surrogate_text, PyStr surrogate_text]
   \<and> test_task_solving_dialogue surrogate_clients (\<lambda>k. k) [] [] = ([], Inl UnicodeEncodeError)"
proof -
  from surrogate_clients_dialogue
  obtain rs es where s: "task_dialogue surrogate_clients = Inr (rs, es)"
    by blast
  from surrogate_clients_finals [OF s] s show ?thesis
    by (simp add: validate_surrogate_text surrogate_clients_outcome)
qed

text \<open>
  Claim C10. When the task-solving test ends with the failure of uniqueness, the
  whole dialogue is stored: seven rows numbered 0 to 6, the task, the three aspect
  responses and the three final responses, among them the equal ones.
\<close>

theorem saved_before_uniqueness:
  assumes "snd (test_task_solving_dialogue cl now stamp tbl)
             = Inl (AssertionError Final_responses_must_be_unique)"
  shows "\<exists>responses dialogue_entries new.
      task_dialogue cl = Inr (responses, dialogue_entries)
    \<and> fst (test_task_solving_dialogue cl now stamp tbl) = tbl @ new
    \<and> map sequence_number new = [0..<7]
    \<and> map test_name new = replicate 7 (u ''task_solving_'' @ stamp)
    \<and> map model_name new = u ''system'' # models @ models
    \<and> map message_type new =
        u ''task'' # replicate 3 (u ''aspect_response'') @ replicate 3 (u ''final_response'')
    \<and> map (\<lambda>r. PyStr (message_content r)) new = map e_content dialogue_entries
    \<and> final_responses responses models = Inr (map (\<lambda>r. PyStr (message_content r)) (drop 4 new))
    \<and> \<not> distinct (map message_content (drop 4 new))"
proof -
  obtain rs es where d: "task_dialogue cl = Inr (rs, es)"
  proof (cases "task_dialogue cl")
    case (Inl err)
    from task_test_aborted [OF Inl, of now stamp tbl] assms task_dialogue_Inl [OF Inl]
    show ?thesis by simp
  next
    case (Inr x)
    with that show ?thesis by (cases x) simp
  qed
  obtain tbl' where sv: "save_dialogue_to_db now tbl (u ''task_solving_'' @ stamp) es = Inr tbl'"
  proof (cases "save_dialogue_to_db now tbl (u ''task_solving_'' @ stamp) es")
    case (Inl err)
    from task_test_not_saved [OF d Inl] assms save_Inl [OF Inl]
    show ?thesis by auto
  next
    case (Inr x)
    with that show ?thesis by simp
  qed
  from task_test_outcome [OF d, of now stamp tbl] obtain finals where
    f: "final_responses rs models = Inr finals"
       "finals = map e_content (drop 4 es)"
       "length finals = length models"
    by (elim exE conjE) (rule that)
  have t: "test_task_solving_dialogue cl now stamp tbl =
        (tbl', if card (set finals) = length models then Inr ()
               else Inl (AssertionError Final_responses_must_be_unique))"
    using task_test_saved [OF d sv] by (simp add: f(2))
  from task_dialogue_Inr [OF d] obtain p where
    p: "map e_model es = map Some (u ''system'' # models @ models)"
       "map e_type es =
        Some (u ''task'') # replicate 3 (Some (u ''aspect_response''))
          @ replicate 3 (Some (u ''final_response''))"
    by (elim exE conjE) (rule that)
  have les: "length es = 7"
    using arg_cong [OF p(1), of length] by (simp add: models_def)
  from save_Inr [OF sv] obtain new where new: "tbl' = tbl @ new"
     "map sequence_number new = [0..<length es]"
     "map test_name new = replicate (length es) (u ''task_solving_'' @ stamp)"
     "map model_name new =
         map (\<lambda>e. case e_model e of None \<Rightarrow> u ''system'' | Some m \<Rightarrow> m) es"
     "map message_type new =
         map (\<lambda>e. case e_type e of None \<Rightarrow> u ''message'' | Some t \<Rightarrow> t) es"
     "map (\<lambda>r. PyStr (message_content r)) new = map e_content es"
    by (elim exE conjE) (rule that)
  have mm: "map (\<lambda>e. case e_model e of None \<Rightarrow> u ''system'' | Some m \<Rightarrow> m) es
      = map (\<lambda>x. case x of None \<Rightarrow> u ''system'' | Some m \<Rightarrow> m) (map e_model es)"
    by simp
  have mt: "map (\<lambda>e. case e_type e of None \<Rightarrow> u ''message'' | Some t \<Rightarrow> t) es
      = map (\<lambda>x. case x of None \<Rightarrow> u ''message'' | Some t \<Rightarrow> t) (map e_type es)"
    by simp
  have c1: "fst (test_task_solving_dialogue cl now stamp tbl) = tbl @ new"
    by (simp add: t new(1))
  have c2: "map sequence_number new = [0..<7]"
    by (simp only: new(2) les)
  have c3: "map test_name new = replicate 7 (u ''task_solving_'' @ stamp)"
    by (simp only: new(3) les)
  have c4: "map model_name new = u ''system'' # models @ models"
    unfolding new(4) by (simp only: mm p(1)) (simp add: comp_def)
  have c5: "map message_type new =
        u ''task'' # replicate 3 (u ''aspect_response'') @ replicate 3 (u ''final_response'')"
    unfolding new(5) by (simp only: mt p(2)) simp
  have dr: "map (\<lambda>r. PyStr (message_content r)) (drop 4 new) = finals"
    unfolding f(2) using arg_cong [OF new(6), of "drop 4"] by (simp only: drop_map)
  have c7: "final_responses rs models = Inr (map (\<lambda>r. PyStr (message_content r)) (drop 4 new))"
    by (simp only: dr f(1))
  from assms have "card (set finals) \<noteq> length finals"
    by (auto simp: f(3) t split: if_splits)
  then have nd: "\<not> distinct finals"
    using distinct_card by blast
  have "map PyStr (map message_content (drop 4 new)) = finals"
    using dr by (simp add: comp_def)
  then have c8: "\<not> distinct (map message_content (drop 4 new))"
    using nd by (metis distinct_map inj_on_def pyval.inject)
  show ?thesis
    using d c1 c2 c3 c4 c5 new(6) c7 c8 by (intro exI [of _ rs] exI [of _ es] exI [of _ new] conjI)
qed

text \<open>Claim C10: the theorem at backends that all return the same text.\<close>

theorem saved_before_uniqueness_witness:
  "snd (test_task_solving_dialogue same_clients (\<lambda>k. k) [] [])
     = Inl (AssertionError Final_responses_must_be_unique)
   \<and> length (fst (test_task_solving_dialogue same_clients (\<lambda>k. k) [] [])) = 7
   \<and> map message_content (drop 4 (fst (test_task_solving_dialogue same_clients (\<lambda>k. k) [] [])))
       = [words20, words20, words20]"
proof -
  have a: "snd (test_task_solving_dialogue same_clients (\<lambda>k. k) [] [])
       = Inl (AssertionError Final_responses_must_be_unique)"
    by (rule same_clients_outcome)
  from saved_before_uniqueness [OF a] obtain rs' es' new where
    n: "task_dialogue same_clients = Inr (rs', es')"
       "fst (test_task_solving_dialogue same_clients (\<lambda>k. k) [] []) = [] @ new"
       "map sequence_number new = [0..<7]"
       "map (\<lambda>r. PyStr (message_content r)) new = map e_content es'"
    by (elim exE conjE) (rule that)
  have "length (map sequence_number new) = length [0..<7::nat]"
    by (simp only: n(3))
  then have l: "length new = 7" by simp
  have "map (\<lambda>r. PyStr (message_content r)) (drop 4 new) = map e_content (drop 4 es')"
    using arg_cong [OF n(4), of "drop 4"] by (simp only: drop_map)
  then have "map PyStr (map message_content (drop 4 new)) = map PyStr [words20, words20, words20]"
    using same_clients_finals [OF n(1)] by (simp add: comp_def)
  then have "map message_content (drop 4 new) = [words20, words20, words20]"
    by (metis inj_map_eq_map injI pyval.inject)
  with a l n(2) show ?thesis by simp
qed

subsection \<open>The latest tests\<close>

text \<open>
  Claim C8. The first query of \<open>view_latest_test_results\<close> on a table that holds the
  two entries of one test, inserted at the seconds 1 and 2: the test is listed
  twice, once per time.
\<close>

theorem latest_tests_repeats_a_test:
  "save_dialogue_to_db Suc [] (u ''run'') [hello, hello] = Inr two_rows
   \<and> latest_tests two_rows = [(u ''run'', 2), (u ''run'', 1)]"
proof -
  have a: "save_dialogue_to_db Suc [] (u ''run'') [hello, hello] = Inr two_rows"
    by (simp add: save_dialogue_to_db_def insert_row_def hello_def two_rows_def next_id_def Let_def)
  have b: "latest_tests two_rows = [(u ''run'', 2), (u ''run'', 1)]"
    by (simp add: latest_tests_def two_rows_def)
  from a b show ?thesis by simp
qed

subsection \<open>A test that aborts\<close>

lemma empty_ollama_task_aborts:
  "test_task_solving_dialogue empty_ollama now stamp tbl
     = (tbl, Inl (AssertionError (Response_must_not_be_empty (u ''ollama''))))"
proof -
  have v: "validate_aspect (u ''ollama'') (PyStr []) =
      Inl (AssertionError (Response_must_not_be_empty (u ''ollama'')))"
    by (simp add: validate_aspect_def)
  have "task_dialogue empty_ollama
      = Inl (AssertionError (Response_must_not_be_empty (u ''ollama'')))"
    by (simp add: task_dialogue_def aspects_def empty_ollama_def constant_clients_response
        validate_aspect_words v Let_def)
  from task_test_aborted [OF this] show ?thesis .
qed

text \<open>
  Claim C1, as the code has it. Both tests keep the entries in a list and save it
  once, after the last response has been validated. A dialogue in Russian that does
  not pass leaves the table as it was, and so does a task-solving dialogue that ends
  with any error but the failure of uniqueness.
\<close>

theorem abort_stores_nothing:
  "(snd (test_russian_dialogue other cl now stamp tbl) \<noteq> Inr () \<longrightarrow>
      fst (test_russian_dialogue other cl now stamp tbl) = tbl)
   \<and> (snd (test_task_solving_dialogue cl now stamp tbl) \<noteq> Inr ()
      \<and> snd (test_task_solving_dialogue cl now stamp tbl)
           \<noteq> Inl (AssertionError Final_responses_must_be_unique) \<longrightarrow>
      fst (test_task_solving_dialogue cl now stamp tbl) = tbl)"
proof
  show "snd (test_russian_dialogue other cl now stamp tbl) \<noteq> Inr () \<longrightarrow>
      fst (test_russian_dialogue other cl now stamp tbl) = tbl"
    by (simp add: test_russian_dialogue_def Let_def split: sum.splits)
next
  show "snd (test_task_solving_dialogue cl now stamp tbl) \<noteq> Inr ()
      \<and> snd (test_task_solving_dialogue cl now stamp tbl)
           \<noteq> Inl (AssertionError Final_responses_must_be_unique) \<longrightarrow>
      fst (test_task_solving_dialogue cl now stamp tbl) = tbl"
  proof (cases "task_dialogue cl")
    case (Inl err)
    from task_test_aborted [OF Inl, of now stamp tbl] show ?thesis by simp
  next
    case (Inr x)
    obtain rs es where x: "x = (rs, es)" by (cases x)
    from task_test_outcome [OF Inr [unfolded x], of now stamp tbl] show ?thesis
      by (auto split: sum.splits if_splits)
  qed
qed

text \<open>Claim C1: the theorem at backends where \<open>ollama\<close> returns the empty text.\<close>

theorem abort_stores_nothing_witness:
  "snd (test_russian_dialogue (\<lambda>c. False) empty_ollama (\<lambda>k. k) [] [first_row]) \<noteq> Inr ()
   \<and> fst (test_russian_dialogue (\<lambda>c. False) empty_ollama (\<lambda>k. k) [] [first_row]) = [first_row]
   \<and> snd (test_task_solving_dialogue empty_ollama (\<lambda>k. k) [] [first_row]) \<noteq> Inr ()
   \<and> snd (test_task_solving_dialogue empty_ollama (\<lambda>k. k) [] [first_row])
        \<noteq> Inl (AssertionError Final_responses_must_be_unique)
   \<and> fst (test_task_solving_dialogue empty_ollama (\<lambda>k. k) [] [first_row]) = [first_row]"
proof -
  have a: "snd (test_russian_dialogue (\<lambda>c. False) empty_ollama (\<lambda>k. k) [] [first_row]) \<noteq> Inr ()"
    by (simp add: empty_ollama_aborts)
  have b: "snd (test_task_solving_dialogue empty_ollama (\<lambda>k. k) [] [first_row]) \<noteq> Inr ()
     \<and> snd (test_task_solving_dialogue empty_ollama (\<lambda>k. k) [] [first_row])
        \<noteq> Inl (AssertionError Final_responses_must_be_unique)"
    by (simp add: empty_ollama_task_aborts)
  from abort_stores_nothing [of "\<lambda>c. False" empty_ollama "\<lambda>k. k" "[]" "[first_row]"] a b
  show ?thesis by blast
qed

text \<open>
  Claim C1 as stated fails: when \<open>ollama\<close> returns the empty text, the dialogue in
  Russian aborts on its first turn with the non-empty assertion, and nothing is
  stored for the run, neither the topic nor the validated response of \<open>openai\<close>.
\<close>

theorem abort_loses_earlier_entries:
  "validate_response (\<lambda>c. False) (u ''openai'')
      (get_model_response empty_ollama (u ''openai'') (discussion_prompt topic)) = Inr ()
   \<and> test_russian_dialogue (\<lambda>c. False) empty_ollama (\<lambda>k. k) [] []
       = ([], Inl (AssertionError (Response_must_not_be_empty (u ''ollama''))))
   \<and> get_dialogue_from_db (fst (test_russian_dialogue (\<lambda>c. False) empty_ollama (\<lambda>k. k) [] []))
        (u ''russian_dialogue_'' @ []) = []"
  by (simp add: empty_ollama_aborts)
    (simp add: empty_ollama_def constant_clients_response validate_da get_dialogue_from_db_def)

end
